theory Spec2Isabelle
  imports Complex_Main "HOL-Library.Sublist" "HOL-Library.AList"
begin

section \<open>Python values shared by the scripts\<close>

text \<open>
  The scripts are Python. Strings are modelled as \<^typ>\<open>string\<close>, every character
  being one code point below 256. Exceptions are values of \<open>exn\<close>; a call that may raise
  returns \<open>exn + 'a\<close> with \<open>Inl\<close> for the raised exception.
\<close>

datatype exn =
    TranscriptsDisabled
  | DownloadError string
  | ValueError string
  | ZeroDivisionError
  | OtherError string

text \<open>A key of a Python dict read with \<open>.get\<close>: absent, present with \<open>None\<close>, or a value.\<close>

datatype 'a field = Missing | Null | Val 'a

subsection \<open>String operations\<close>

text \<open>\<open>s.rstrip("/")\<close>: remove every trailing occurrence of the character.\<close>

definition rstrip_char :: "char \<Rightarrow> string \<Rightarrow> string" where
  "rstrip_char c s = rev (dropWhile (\<lambda>x. x = c) (rev s))"

text \<open>\<open>s.endswith(suf)\<close>.\<close>

definition endswith :: "string \<Rightarrow> string \<Rightarrow> bool" where
  "endswith s suf = suffix suf s"

section \<open>data\_scraper\_channel.py: channel reference normaliser\<close>

text \<open>
  \<^verbatim>\<open>
  def normalize_to_videos_page(url):
      if url.rstrip("/").endswith("/videos"):
          return url
      return url.rstrip("/") + "/videos"
  \<close>
\<close>

definition normalize_to_videos_page :: "string \<Rightarrow> string" where
  "normalize_to_videos_page url =
     (if endswith (rstrip_char CHR ''/'' url) ''/videos'' then url
      else rstrip_char CHR ''/'' url @ ''/videos'')"

text \<open>
  The rule in the words of the specification: unchanged when the input already ends with
  the suffix, the suffix appended otherwise.
\<close>

definition normalize_spec :: "string \<Rightarrow> string" where
  "normalize_spec url = (if endswith url ''/videos'' then url else url @ ''/videos'')"

section \<open>sentiment\_analyzer\_transformer.py: chunking\<close>

text \<open>
  \<open>range(i, stop, step)\<close> for a positive step, as the list of its members. The guard
  \<open>step = 0\<close> only makes the recursion total; \<open>py_range0\<close> below never passes it.
\<close>

function range_from :: "nat \<Rightarrow> nat \<Rightarrow> nat \<Rightarrow> nat list" where
  "range_from i stop step =
     (if step = 0 \<or> stop \<le> i then [] else i # range_from (i + step) stop step)"
  by pat_completeness auto
termination
  by (relation "measure (\<lambda>(i, stop, step). stop - i)") auto

declare range_from.simps [simp del]

text \<open>
  \<open>range(0, stop, step)\<close> with \<open>stop = len(...)\<close>: Python raises ValueError for a zero
  step, and the range is empty for a negative step.
\<close>

definition py_range0 :: "nat \<Rightarrow> int \<Rightarrow> exn + nat list" where
  "py_range0 stop step =
     (if step = 0 then Inl (ValueError ''range() arg 3 must not be zero'')
      else if step < 0 then Inr []
      else Inr (range_from 0 stop (nat step)))"

text \<open>
  The slice \<open>xs[i:j]\<close> for an index \<open>i \<ge> 0\<close>: a negative \<open>j\<close> counts from the end, and
  both ends are clamped to the list.
\<close>

definition py_slice :: "'a list \<Rightarrow> nat \<Rightarrow> int \<Rightarrow> 'a list" where
  "py_slice xs i j =
     (let n = int (length xs);
          j' = (if j < 0 then max 0 (n + j) else min j n)
      in take (nat j' - i) (drop i xs))"

text \<open>
  \<^verbatim>\<open>
  def transcript_to_id_chunks(text, chunk_size):
      token_ids = tokenizer.encode(text, add_special_tokens=False)
      chunks = [token_ids[i : i + chunk_size]
                for i in range(0, len(token_ids), chunk_size)]
      return chunks
  \<close>
  The tokenizer is the pretrained model's; it is the parameter \<open>encode\<close>.
\<close>

definition transcript_to_id_chunks ::
  "(string \<Rightarrow> 'tok list) \<Rightarrow> string \<Rightarrow> int \<Rightarrow> exn + 'tok list list" where
  "transcript_to_id_chunks encode text chunk_size =
     (let token_ids = encode text in
      case py_range0 (length token_ids) chunk_size of
        Inl e \<Rightarrow> Inl e
      | Inr starts \<Rightarrow>
          Inr (map (\<lambda>i. py_slice token_ids i (int i + chunk_size)) starts))"

section \<open>sentiment\_analyzer\_transformer.py: scoring\<close>

text \<open>
  The pretrained tokenizer and classifier are external: \<open>encode\<close> is
  \<open>tokenizer.encode(text, add_special_tokens=False)\<close>, and \<open>logits\<close> is the forward pass
  of the model, the two logits (NEGATIVE, POSITIVE) for a sequence of identifiers.
\<close>

record 'tok classifier =
  encode :: "string \<Rightarrow> 'tok list"
  model_max_length :: int
  cls_token_id :: 'tok
  sep_token_id :: 'tok
  logits :: "'tok list \<Rightarrow> real \<times> real"

text \<open>
  \<open>F.softmax(logits, dim=-1)\<close> on two classes, as the function it computes on real
  numbers; the rounding of the library is not modelled.
\<close>

definition softmax2 :: "real \<times> real \<Rightarrow> real \<times> real" where
  "softmax2 l =
     (exp (fst l) / (exp (fst l) + exp (snd l)), exp (snd l) / (exp (fst l) + exp (snd l)))"

text \<open>
  The arithmetic of the averaging step is not fixed: the three operations the script
  applies to the probabilities are parameters, \<open>sum(xs)\<close>, the division of a number by a
  length that is not zero, and the subtraction. \<open>exact_ops\<close> are these operations without
  rounding.
\<close>

record float_ops =
  float_sum :: "real list \<Rightarrow> real"
  float_div :: "real \<Rightarrow> nat \<Rightarrow> real"
  float_sub :: "real \<Rightarrow> real \<Rightarrow> real"

definition exact_ops :: float_ops where
  "exact_ops =
     \<lparr>float_sum = sum_list, float_div = (\<lambda>x n. x / real n), float_sub = (\<lambda>x y. x - y)\<rparr>"

text \<open>\<open>sum(xs) / len(xs)\<close>: Python raises ZeroDivisionError on the empty list.\<close>

definition py_mean :: "float_ops \<Rightarrow> real list \<Rightarrow> exn + real" where
  "py_mean ops xs =
     (if length xs = 0 then Inl ZeroDivisionError
      else Inr (float_div ops (float_sum ops xs) (length xs)))"

text \<open>
  Lines 75 to 88, for one window: the boundary markers are added, the model is run, and
  the softmax of its logits is the pair \<open>(neg_prob, pos_prob)\<close>.
\<close>

definition window_probs :: "'tok classifier \<Rightarrow> 'tok list \<Rightarrow> real \<times> real" where
  "window_probs tk ids = softmax2 (logits tk ([cls_token_id tk] @ ids @ [sep_token_id tk]))"

text \<open>
  The body of the loop over the rows (lines 66 to 96), for one transcript: the windows,
  the probabilities of each window, the two means and the score. The result is
  \<open>(avg_neg, avg_pos, score)\<close>.
\<close>

definition score_transcript ::
  "'tok classifier \<Rightarrow> float_ops \<Rightarrow> string \<Rightarrow> int \<Rightarrow> exn + real \<times> real \<times> real" where
  "score_transcript tk ops transcript chunk_size =
     (case transcript_to_id_chunks (encode tk) transcript chunk_size of
        Inl e \<Rightarrow> Inl e
      | Inr id_chunks \<Rightarrow>
          (let probs = map (window_probs tk) id_chunks;
               chunk_neg = map fst probs;
               chunk_pos = map snd probs
           in case py_mean ops chunk_neg of
                Inl e \<Rightarrow> Inl e
              | Inr avg_neg \<Rightarrow>
                  (case py_mean ops chunk_pos of
                     Inl e \<Rightarrow> Inl e
                   | Inr avg_pos \<Rightarrow> Inr (avg_neg, avg_pos, float_sub ops avg_pos avg_neg))))"

text \<open>
  The loop over the rows: no \<open>try\<close> surrounds the body, so the first exception ends the
  script and no output file is written.
\<close>

fun score_rows ::
  "'tok classifier \<Rightarrow> float_ops \<Rightarrow> int \<Rightarrow> string list
     \<Rightarrow> (real \<times> real \<times> real) list \<Rightarrow> exn + (real \<times> real \<times> real) list" where
  "score_rows tk ops chunk_size [] acc = Inr acc"
| "score_rows tk ops chunk_size (t # ts) acc =
     (case score_transcript tk ops t chunk_size of
        Inl e \<Rightarrow> Inl e
      | Inr r \<Rightarrow> score_rows tk ops chunk_size ts (acc @ [r]))"

text \<open>
  Lines 32 and 33: \<open>pd.read_csv\<close> reads a cell that is one of its NA markers, the empty
  cell among them, as NaN (here \<open>None\<close>), and \<open>df.dropna(subset=["transcript"])\<close> removes
  the rows whose transcript is NaN. The markers are the parameter \<open>na\<close>;
  \<open>pandas_na_values\<close> are the documented defaults. The transcript column is taken to be
  read as text.
\<close>

definition read_csv_column :: "string list \<Rightarrow> string list \<Rightarrow> string option list" where
  "read_csv_column na cells = map (\<lambda>c. if c \<in> set na then None else Some c) cells"

definition dropna :: "string option list \<Rightarrow> string list" where
  "dropna column = concat (map (\<lambda>c. case c of None \<Rightarrow> [] | Some s \<Rightarrow> [s]) column)"

definition pandas_na_values :: "string list" where
  "pandas_na_values =
     [[], ''#N/A'', ''#N/A N/A'', ''#NA'', ''-1.#IND'', ''-1.#QNAN'', ''-NaN'', ''-nan'',
      ''1.#IND'', ''1.#QNAN'', ''<NA>'', ''N/A'', ''NA'', ''NULL'', ''NaN'', ''None'',
      ''n/a'', ''nan'', ''null'']"

text \<open>
  The script, on the cells of the transcript column of the input file: the rows without
  a transcript are dropped, \<open>chunk_size = tokenizer.model_max_length - 2\<close>, then the loop.
\<close>

definition transformer_script ::
  "'tok classifier \<Rightarrow> float_ops \<Rightarrow> string list \<Rightarrow> string list
     \<Rightarrow> exn + (real \<times> real \<times> real) list" where
  "transformer_script tk ops na cells =
     score_rows tk ops (model_max_length tk - 2) (dropna (read_csv_column na cells)) []"

text \<open>
  A small classifier to run the definitions on. Its tokenizer gives one identifier for
  each visible character and none for white space and control characters; its logits
  are zero for NEGATIVE and the logarithm of the length of the input for POSITIVE.
\<close>

definition example_classifier :: "nat classifier" where
  "example_classifier =
     \<lparr>encode = (\<lambda>s. map of_char
                  (filter (\<lambda>c. 32 < (of_char c :: nat) \<and> of_char c \<noteq> (127 :: nat)) s)),
      model_max_length = 512, cls_token_id = 101, sep_token_id = 102,
      logits = (\<lambda>ids. (0, ln (real (length ids))))\<rparr>"

section \<open>Strings, dict reads and the external services\<close>

text \<open>
  \<open>str.isspace\<close> on the code points below 256: tab, line feed, vertical tab, form feed,
  carriage return, the four separators 28 to 31, space, next line (133) and the
  no-break space (160).
\<close>

definition is_space :: "char \<Rightarrow> bool" where
  "is_space c = (of_char c \<in> {9, 10, 11, 12, 13, 28, 29, 30, 31, 32, 133, 160 :: nat})"

text \<open>\<open>s.strip()\<close>.\<close>

definition strip :: "string \<Rightarrow> string" where
  "strip s = rev (dropWhile is_space (rev (dropWhile is_space s)))"

text \<open>\<open>sep.join(xs)\<close>.\<close>

fun join :: "string \<Rightarrow> string list \<Rightarrow> string" where
  "join sep [] = []"
| "join sep [x] = x"
| "join sep (x # y # ys) = x @ sep @ join sep (y # ys)"

text \<open>
  \<open>s.lower()\<close> on the code points below 256: the letters A to Z, and the capital
  letters 192 to 222 of Latin-1 but the multiplication sign 215.
\<close>

definition lower_char :: "char \<Rightarrow> char" where
  "lower_char c =
     (let n = of_char c :: nat
      in if (65 \<le> n \<and> n \<le> 90) \<or> (192 \<le> n \<and> n \<le> 222 \<and> n \<noteq> 215)
         then char_of (n + 32) else c)"

definition lower :: "string \<Rightarrow> string" where
  "lower s = map lower_char s"

text \<open>\<open>sub in s\<close> on strings.\<close>

definition py_in :: "string \<Rightarrow> string \<Rightarrow> bool" where
  "py_in sub s = sublist sub s"

text \<open>\<open>d.get(k)\<close> and \<open>d.get(k, default)\<close>; \<open>None\<close> is the Python \<open>None\<close>.\<close>

definition dict_get :: "'a field \<Rightarrow> 'a option" where
  "dict_get f = (case f of Missing \<Rightarrow> None | Null \<Rightarrow> None | Val v \<Rightarrow> Some v)"

definition dict_get_default :: "'a field \<Rightarrow> 'a \<Rightarrow> 'a option" where
  "dict_get_default f d = (case f of Missing \<Rightarrow> Some d | Null \<Rightarrow> None | Val v \<Rightarrow> Some v)"

text \<open>\<open>x or d\<close>: the default replaces \<open>None\<close>, the number zero and the empty string.\<close>

definition or_int :: "int option \<Rightarrow> int \<Rightarrow> int" where
  "or_int x d = (case x of None \<Rightarrow> d | Some v \<Rightarrow> if v = 0 then d else v)"

definition or_str :: "string option \<Rightarrow> string \<Rightarrow> string" where
  "or_str x d = (case x of None \<Rightarrow> d | Some v \<Rightarrow> if v = [] then d else v)"

text \<open>
  An info dict of the extraction service, with the keys the scripts read. A search and a
  channel listing answer with the value of the key \<open>entries\<close>, a list of such dicts.
\<close>

record info_dict =
  id_key :: "string field"
  view_count :: "int field"
  like_count :: "int field"
  comment_count :: "int field"
  title_key :: "string field"
  upload_date :: "string field"

text \<open>
  The outside world. Each service is a function of the number of calls made to it before
  and of its argument, so that a call may answer differently each time:
  \<open>extract_playlist\<close> is \<open>extract_info\<close> on a search or on a channel page,
  \<open>extract_video\<close> is \<open>extract_info\<close> on a watch page,
  \<open>get_transcript\<close> is \<open>YouTubeTranscriptApi.get_transcript\<close> (the texts of its segments),
  \<open>choice\<close> is the index \<open>random.choice\<close> draws.
\<close>

record env =
  extract_playlist :: "nat \<Rightarrow> string \<Rightarrow> exn + info_dict list field"
  extract_video :: "nat \<Rightarrow> string \<Rightarrow> exn + info_dict"
  get_transcript :: "nat \<Rightarrow> string option \<Rightarrow> exn + string list"
  choice :: "nat \<Rightarrow> nat"

text \<open>
  What a script has done to the world: how often it has called each service, and the
  sleeps in order (a fixed number of seconds, or a random throttle pause).
\<close>

datatype sleep = Seconds nat | Throttle

record world =
  playlist_calls :: nat
  video_calls :: nat
  transcript_calls :: nat
  choice_calls :: nat
  sleeps :: "sleep list"

text \<open>A row of an output CSV file.\<close>

record video_record =
  video_id :: "string option"
  views :: int
  likes :: int
  comments :: int
  title :: "string option"
  published_at :: "string option"
  transcript :: string

text \<open>
  \<^verbatim>\<open>
  def fetch_transcript(video_id):
      segs = YouTubeTranscriptApi.get_transcript(video_id)
      text = " ".join(s["text"] for s in segs).strip()
      if not text:
          raise ValueError("empty transcript")
      return text
  \<close>
  The same function stands in main.py and in data\_scraper\_channel.py. An exception of
  the service passes through.
\<close>

definition fetch_transcript :: "('v \<Rightarrow> exn + string list) \<Rightarrow> 'v \<Rightarrow> exn + string" where
  "fetch_transcript service vid =
     (case service vid of
        Inl e \<Rightarrow> Inl e
      | Inr segs \<Rightarrow>
          (let text = strip (join '' '' segs)
           in if text = [] then Inl (ValueError ''empty transcript'') else Inr text))"

text \<open>
  The text in the words of the specification: the caption segments in order, with a
  single space between two neighbours.
\<close>

definition spaced_segments :: "string list \<Rightarrow> string" where
  "spaced_segments segs =
     (if segs = [] then [] else concat (map (\<lambda>s. s @ '' '') (butlast segs)) @ last segs)"

section \<open>data\_scraper\_channel.py: the channel harvest\<close>

record cstate = world +
  rows :: "video_record list"
  processed :: nat
  skipped_no_transcript :: nat

text \<open>\<open>time.sleep(random.uniform(MIN_PAUSE, MAX_PAUSE))\<close>.\<close>

definition throttle :: "cstate \<Rightarrow> cstate" where
  "throttle st = st\<lparr>sleeps := sleeps st @ [Throttle]\<rparr>"

text \<open>The three statements before every \<open>continue\<close>: count the skip and pause.\<close>

definition skip_video :: "cstate \<Rightarrow> cstate" where
  "skip_video st = throttle (st\<lparr>skipped_no_transcript := skipped_no_transcript st + 1\<rparr>)"

text \<open>
  Step b of the loop (lines 155 to 180), the metadata fetch of one video: \<open>None\<close> is the
  \<open>continue\<close> of a skipped video.
  \<^verbatim>\<open>
  try:
      vid_url = f"https://www.youtube.com/watch?v={video_id}"
      info = ydl_meta.extract_info(vid_url, download=False)
  except DownloadError as e:
      msg = str(e).lower()
      if "rate-limited" in msg:
          time.sleep(60)
          try:
              info = ydl_meta.extract_info(vid_url, download=False)
          except Exception as e2:
              skipped_no_transcript += 1; time.sleep(random.uniform(...)); continue
      else:
          skipped_no_transcript += 1; time.sleep(random.uniform(...)); continue
  except Exception as e:
      skipped_no_transcript += 1; time.sleep(random.uniform(...)); continue
  \<close>
\<close>

definition fetch_metadata :: "env \<Rightarrow> string \<Rightarrow> cstate \<Rightarrow> info_dict option \<times> cstate" where
  "fetch_metadata env vid st =
     (let vid_url = ''https://www.youtube.com/watch?v='' @ vid;
          st1 = st\<lparr>video_calls := video_calls st + 1\<rparr>
      in case extract_video env (video_calls st) vid_url of
           Inr info \<Rightarrow> (Some info, st1)
         | Inl (DownloadError msg) \<Rightarrow>
             if py_in ''rate-limited'' (lower msg) then
               (let st2 = st1\<lparr>sleeps := sleeps st1 @ [Seconds 60]\<rparr>;
                    st3 = st2\<lparr>video_calls := video_calls st2 + 1\<rparr>
                in case extract_video env (video_calls st2) vid_url of
                     Inr info \<Rightarrow> (Some info, st3)
                   | Inl e2 \<Rightarrow> (None, skip_video st3))
             else (None, skip_video st1)
         | Inl e \<Rightarrow> (None, skip_video st1))"

text \<open>Steps c and d: the row written for a video, from its metadata and transcript.\<close>

definition channel_row :: "string \<Rightarrow> info_dict \<Rightarrow> string \<Rightarrow> video_record" where
  "channel_row vid info text =
     \<lparr>video_id = Some vid,
      views = or_int (dict_get_default (view_count info) 0) 0,
      likes = or_int (dict_get_default (like_count info) 0) 0,
      comments = or_int (dict_get_default (comment_count info) 0) 0,
      title = Some (or_str (dict_get_default (title_key info) []) []),
      published_at = Some (or_str (dict_get_default (upload_date info) []) []),
      transcript = text\<rparr>"

text \<open>
  The body of the loop over the entries (lines 132 to 203). An entry without an id is
  passed over; a transcript that cannot be fetched, whatever the exception, skips the
  video; so does a metadata fetch that returns nothing.
\<close>

definition process_entry :: "env \<Rightarrow> info_dict \<Rightarrow> cstate \<Rightarrow> cstate" where
  "process_entry env entry st =
     (case dict_get (id_key entry) of
        None \<Rightarrow> st
      | Some vid \<Rightarrow>
          if vid = [] then st
          else
            (let st1 = st\<lparr>transcript_calls := transcript_calls st + 1\<rparr>
             in case fetch_transcript (get_transcript env (transcript_calls st)) (Some vid) of
                  Inl TranscriptsDisabled \<Rightarrow> skip_video st1
                | Inl e \<Rightarrow> skip_video st1
                | Inr text \<Rightarrow>
                    (case fetch_metadata env vid st1 of
                       (None, st2) \<Rightarrow> st2
                     | (Some info, st2) \<Rightarrow>
                         throttle (st2\<lparr>rows := rows st2 @ [channel_row vid info text],
                                        processed := processed st2 + 1\<rparr>))))"

fun process_entries :: "env \<Rightarrow> info_dict list \<Rightarrow> cstate \<Rightarrow> cstate" where
  "process_entries env [] st = st"
| "process_entries env (e # es) st = process_entries env es (process_entry env e st)"

text \<open>
  \<open>main\<close> of the channel script, on the configured channel URL: it raises on an empty
  URL, returns before opening the output file when the listing fails or is empty, and
  otherwise writes the rows of the final state.
\<close>

datatype channel_run = Raised exn | Listing_failed | No_videos | Finished cstate

definition channel_start :: cstate where
  "channel_start =
     \<lparr>playlist_calls = 1, video_calls = 0, transcript_calls = 0, choice_calls = 0,
      sleeps = [], rows = [], processed = 0, skipped_no_transcript = 0\<rparr>"

definition channel_main :: "env \<Rightarrow> string \<Rightarrow> channel_run" where
  "channel_main env channel_url =
     (if channel_url = [] then Raised (ValueError ''Please set CHANNEL_URL to the target channel.'')
      else case extract_playlist env 0 (normalize_to_videos_page channel_url) of
             Inl e \<Rightarrow> Listing_failed
           | Inr ch \<Rightarrow>
               (case dict_get_default ch [] of
                  None \<Rightarrow> No_videos
                | Some entries \<Rightarrow>
                    if entries = [] then No_videos
                    else Finished (process_entries env entries channel_start)))"

definition CHANNEL_URL :: string where
  "CHANNEL_URL = ''https://www.youtube.com/@CosmicSkeptic''"

text \<open>
  The ids of a listing that the loop over the entries does not pass over: those present
  and not empty, in order.
\<close>

definition listed_ids :: "info_dict list \<Rightarrow> string list" where
  "listed_ids entries = filter (\<lambda>v. v \<noteq> []) (List.map_filter (\<lambda>e. dict_get (id_key e)) entries)"

section \<open>main.py: the stratified sampler\<close>

text \<open>The upper bound of a tier: a number, or \<open>float('inf')\<close>.\<close>

datatype limit = Finite int | Unbounded

definition below :: "int \<Rightarrow> limit \<Rightarrow> bool" where
  "below v hi = (case hi of Finite m \<Rightarrow> v < m | Unbounded \<Rightarrow> True)"

definition TARGET_PER_TIER :: int where
  "TARGET_PER_TIER = 50"

definition COMMON_QUERIES :: "string list" where
  "COMMON_QUERIES =
     [''the'', ''and'', ''vlog'', ''news'', ''how'', ''review'',
      ''music'', ''fun'', ''daily'', ''life'']"

definition TIERS :: "(string \<times> int \<times> limit) list" where
  "TIERS =
     [(''viral'', 1000000, Unbounded),
      (''popular'', 100000, Finite 1000000),
      (''mid'', 10000, Finite 100000),
      (''niche'', 0, Finite 10000)]"

text \<open>
  The state of \<open>search_and_filter\<close>: the world and the dict \<open>collected\<close>, a list of
  pairs in insertion order whose keys are the ids (\<open>None\<close> for an entry without one).
\<close>

record sstate = world +
  collected :: "(string option \<times> video_record) list"

text \<open>\<open>views = e.get('view_count') or 0\<close>.\<close>

definition entry_views :: "info_dict \<Rightarrow> int" where
  "entry_views e = or_int (dict_get (view_count e)) 0"

text \<open>The record built at step 4 (lines 129 to 137).\<close>

definition sampler_record :: "info_dict \<Rightarrow> string \<Rightarrow> video_record" where
  "sampler_record e text =
     \<lparr>video_id = dict_get (id_key e),
      views = entry_views e,
      likes = or_int (dict_get_default (like_count e) 0) 0,
      comments = or_int (dict_get_default (comment_count e) 0) 0,
      title = dict_get_default (title_key e) [],
      published_at = dict_get_default (upload_date e) [],
      transcript = text\<rparr>"

text \<open>
  The loop over the entries of one search (lines 108 to 141):
  \<^verbatim>\<open>
  for e in entries:
      vid   = e.get('id')
      views = e.get('view_count') or 0
      if vid in collected: continue
      if not (min_views <= views < max_views): continue
      try:
          transcript = fetch_transcript(vid)
      except _errors.TranscriptsDisabled: continue
      except Exception as ex: continue
      collected[vid] = {...}
      if len(collected) >= needed: break
  \<close>
\<close>

fun scan_entries ::
  "env \<Rightarrow> int \<Rightarrow> limit \<Rightarrow> int \<Rightarrow> info_dict list \<Rightarrow> sstate \<Rightarrow> sstate" where
  "scan_entries env min_views max_views needed [] st = st"
| "scan_entries env min_views max_views needed (e # es) st =
     (let vid = dict_get (id_key e);
          views = entry_views e
      in if vid \<in> fst ` set (collected st) then
           scan_entries env min_views max_views needed es st
         else if \<not> (min_views \<le> views \<and> below views max_views) then
           scan_entries env min_views max_views needed es st
         else
           (let st1 = st\<lparr>transcript_calls := transcript_calls st + 1\<rparr>
            in case fetch_transcript (get_transcript env (transcript_calls st)) vid of
                 Inl TranscriptsDisabled \<Rightarrow>
                   scan_entries env min_views max_views needed es st1
               | Inl ex \<Rightarrow> scan_entries env min_views max_views needed es st1
               | Inr text \<Rightarrow>
                   (let st2 = st1\<lparr>collected :=
                                   AList.update vid (sampler_record e text) (collected st1)\<rparr>
                    in if needed \<le> int (length (collected st2)) then st2
                       else scan_entries env min_views max_views needed es st2)))"

text \<open>
  The \<open>while\<close> loop (lines 86 to 146). It has no bound, so the model takes fuel, one unit
  for each iteration: \<open>None\<close> is a loop still running when the fuel is spent. A
  DownloadError of the search sleeps (60 seconds when rate-limited, 10 otherwise) and
  starts the next iteration; any other exception leaves the function; an answer whose
  \<open>entries\<close> is \<open>None\<close> makes \<open>len(entries)\<close> raise TypeError.
\<close>

fun search_loop ::
  "nat \<Rightarrow> env \<Rightarrow> int \<Rightarrow> limit \<Rightarrow> int \<Rightarrow> sstate \<Rightarrow> (exn + sstate) option" where
  "search_loop fuel env min_views max_views needed st =
     (if int (length (collected st)) < needed then
        (case fuel of
           0 \<Rightarrow> None
         | Suc fuel' \<Rightarrow>
             (let q = COMMON_QUERIES ! (choice env (choice_calls st) mod length COMMON_QUERIES);
                  st1 = st\<lparr>choice_calls := choice_calls st + 1,
                           playlist_calls := playlist_calls st + 1\<rparr>
              in case extract_playlist env (playlist_calls st) (''ytsearch50:'' @ q) of
                   Inl (DownloadError msg) \<Rightarrow>
                     search_loop fuel' env min_views max_views needed
                       (st1\<lparr>sleeps := sleeps st1 @
                          [if py_in ''rate-limited'' (lower msg) then Seconds 60 else Seconds 10]\<rparr>)
                 | Inl ex \<Rightarrow> Some (Inl ex)
                 | Inr info \<Rightarrow>
                     (case dict_get_default info [] of
                        None \<Rightarrow> Some (Inl (OtherError ''TypeError''))
                      | Some entries \<Rightarrow>
                          (let st2 = scan_entries env min_views max_views needed entries st1
                           in search_loop fuel' env min_views max_views needed
                                (st2\<lparr>sleeps := sleeps st2 @ [Throttle]\<rparr>)))))
      else Some (Inr st))"

declare search_loop.simps [simp del]

text \<open>
  \<open>search_and_filter\<close> starts from an empty \<open>collected\<close> and returns
  \<open>list(collected.values())\<close>, here with the state of the world it leaves.
\<close>

definition search_and_filter ::
  "nat \<Rightarrow> env \<Rightarrow> int \<Rightarrow> limit \<Rightarrow> int \<Rightarrow> sstate
     \<Rightarrow> (exn + video_record list \<times> sstate) option" where
  "search_and_filter fuel env min_views max_views needed st =
     (case search_loop fuel env min_views max_views needed (st\<lparr>collected := []\<rparr>) of
        None \<Rightarrow> None
      | Some (Inl ex) \<Rightarrow> Some (Inl ex)
      | Some (Inr st') \<Rightarrow> Some (Inr (map snd (collected st'), st')))"

text \<open>
  \<open>main\<close>: one call of \<open>search_and_filter\<close> for each tier in order, the records of all
  tiers appended to \<open>all_videos\<close>, which is then written to the one output file.
\<close>

fun sample_tiers ::
  "nat \<Rightarrow> env \<Rightarrow> (string \<times> int \<times> limit) list \<Rightarrow> video_record list \<Rightarrow> sstate
     \<Rightarrow> (exn + video_record list) option" where
  "sample_tiers fuel env [] all_videos st = Some (Inr all_videos)"
| "sample_tiers fuel env ((name, lo, hi) # tiers) all_videos st =
     (case search_and_filter fuel env lo hi TARGET_PER_TIER st of
        None \<Rightarrow> None
      | Some (Inl ex) \<Rightarrow> Some (Inl ex)
      | Some (Inr (vids, st')) \<Rightarrow> sample_tiers fuel env tiers (all_videos @ vids) st')"

definition sampler_start :: sstate where
  "sampler_start =
     \<lparr>playlist_calls = 0, video_calls = 0, transcript_calls = 0, choice_calls = 0,
      sleeps = [], collected = []\<rparr>"

definition sampler_main :: "nat \<Rightarrow> env \<Rightarrow> (exn + video_record list) option" where
  "sampler_main fuel env = sample_tiers fuel env TIERS [] sampler_start"

text \<open>The tier a view count falls in, by the ranges of \<open>TIERS\<close>.\<close>

definition tier_of :: "int \<Rightarrow> string option" where
  "tier_of v = map_option fst (find (\<lambda>(name, lo, hi). lo \<le> v \<and> below v hi) TIERS)"

section \<open>Concrete worlds to run the scripts in\<close>

definition example_info :: info_dict where
  "example_info =
     \<lparr>id_key = Val ''v'', view_count = Val 1234, like_count = Null, comment_count = Missing,
      title_key = Val ''A talk'', upload_date = Val ''20240101''\<rparr>"

definition entry_with_id :: "string \<Rightarrow> info_dict" where
  "entry_with_id v =
     \<lparr>id_key = Val v, view_count = Missing, like_count = Missing, comment_count = Missing,
      title_key = Missing, upload_date = Missing\<rparr>"

text \<open>
  A channel of four videos, all with captions. The metadata service answers its six
  calls in turn: rate-limited, success, video unavailable, rate-limited, a time-out,
  success.
\<close>

definition retry_env :: env where
  "retry_env =
     \<lparr>extract_playlist = (\<lambda>n url. Inr (Val (map entry_with_id [''v1'', ''v2'', ''v3'', ''v4'']))),
      extract_video = (\<lambda>n url.
         if n = 0 then Inl (DownloadError ''ERROR: You are being Rate-Limited by YouTube'')
         else if n = 1 then Inr example_info
         else if n = 2 then Inl (DownloadError ''ERROR: Video unavailable'')
         else if n = 3 then Inl (DownloadError ''rate-limited'')
         else if n = 4 then Inl (OtherError ''timed out'')
         else Inr example_info),
      get_transcript = (\<lambda>n v. Inr [''hello'']),
      choice = (\<lambda>n. 0)\<rparr>"

text \<open>
  A channel of three uploads: captions disabled for \<open>A\<close>, an empty caption list for
  \<open>B\<close>, the one segment \<open>hello world\<close> for \<open>C\<close>; the metadata service answers.
\<close>

definition scenario_env :: env where
  "scenario_env =
     \<lparr>extract_playlist = (\<lambda>n url. Inr (Val (map entry_with_id [''A'', ''B'', ''C'']))),
      extract_video = (\<lambda>n url. Inr example_info),
      get_transcript = (\<lambda>n v.
         if v = Some ''A'' then Inl TranscriptsDisabled
         else if v = Some ''B'' then Inr []
         else Inr [''hello world'']),
      choice = (\<lambda>n. 0)\<rparr>"

text \<open>The channel of the scenario above, its listing returning the third video twice.\<close>

definition repeat_env :: env where
  "repeat_env =
     scenario_env\<lparr>extract_playlist :=
       (\<lambda>n url. Inr (Val (map entry_with_id [''C'', ''C''])))\<rparr>"

text \<open>
  What holds of \<open>collected\<close> throughout a call for the tier \<open>[lo, hi)\<close>: the keys are
  distinct, each record is stored under its own id, has a transcript and has its view
  count in the tier.
\<close>

definition collected_ok :: "int \<Rightarrow> limit \<Rightarrow> (string option \<times> video_record) list \<Rightarrow> bool" where
  "collected_ok lo hi c =
     (distinct (map fst c)
      \<and> list_all (\<lambda>(k, r). video_id r = k \<and> transcript r \<noteq> [] \<and> lo \<le> views r
                              \<and> below (views r) hi) c)"

text \<open>The rows of the output file of a run; none when the run does not finish.\<close>

definition rows_of :: "(exn + video_record list) option \<Rightarrow> video_record list" where
  "rows_of r = (case r of Some (Inr rs) \<Rightarrow> rs | _ \<Rightarrow> [])"

text \<open>A search result with an id and a view count, its other keys absent or null.\<close>

definition candidate :: "string \<Rightarrow> int field \<Rightarrow> info_dict" where
  "candidate v vc =
     \<lparr>id_key = Val v, view_count = vc, like_count = Missing, comment_count = Null,
      title_key = Val v, upload_date = Missing\<rparr>"

text \<open>
  A world for one tier: the first search returns candidates below, inside, above and on
  the upper bound of the tier from 10000 to 100000 and one without a view count, the
  second search is rate-limited, the third returns a candidate already collected and
  three more inside the tier. Every video has captions.
\<close>

definition tier_env :: env where
  "tier_env =
     \<lparr>extract_playlist = (\<lambda>n q.
         if n = 0 then
           Inr (Val [candidate ''a'' (Val 5000), candidate ''b'' (Val 50000),
                     candidate ''c'' (Val 150000), candidate ''d'' (Val 100000),
                     candidate ''e'' Missing])
         else if n = 1 then Inl (DownloadError ''ERROR: rate-limited'')
         else
           Inr (Val [candidate ''b'' (Val 50000), candidate ''f'' (Val 10000),
                     candidate ''g'' (Val 99999), candidate ''h'' (Val 20000)])),
      extract_video = (\<lambda>n url. Inl (OtherError ''not called'')),
      get_transcript = (\<lambda>n v. Inr [''some'', ''words'']),
      choice = (\<lambda>n. n)\<rparr>"

text \<open>
  Worlds in which the search with number \<open>n\<close> returns the videos \<open>ids n\<close>, each with
  captions, and reports for all of them the view count \<open>views_at_search n\<close>: one million
  at the first search, ten views fewer at the second, then fifty thousand, and five
  thousand from the fourth search on.
\<close>

definition views_at_search :: "nat \<Rightarrow> int" where
  "views_at_search n =
     (if n = 0 then 1000000 else if n = 1 then 999990 else if n = 2 then 50000 else 5000)"

definition search_world :: "(nat \<Rightarrow> string list) \<Rightarrow> env" where
  "search_world ids =
     \<lparr>extract_playlist = (\<lambda>n q.
         Inr (Val (map (\<lambda>v. candidate v (Val (views_at_search n))) (ids n)))),
      extract_video = (\<lambda>n url. Inl (OtherError ''not called'')),
      get_transcript = (\<lambda>n v. Inr [''some'', ''words'']),
      choice = (\<lambda>n. n)\<rparr>"

definition fifty_ids :: "string list" where
  "fifty_ids = map (\<lambda>i. ''vid'' @ [char_of (48 + i div 10), char_of (48 + i mod 10)]) [0..<50]"

text \<open>Fifty videos for each search, marked with the letter of the search.\<close>

definition fresh_ids :: "nat \<Rightarrow> string list" where
  "fresh_ids n = map (\<lambda>v. char_of (97 + n) # v) fifty_ids"

text \<open>
  The first two searches return the same fifty videos, whose view counts have dropped by
  ten in between; the later searches return videos of their own.
\<close>

definition recount_ids :: "nat \<Rightarrow> string list" where
  "recount_ids n = (if n \<le> 1 then fifty_ids else fresh_ids n)"

definition recount_env :: env where
  "recount_env = search_world recount_ids"

text \<open>Every search returns fifty videos of its own.\<close>

definition fresh_env :: env where
  "fresh_env = search_world fresh_ids"

text \<open>The records such a world yields for the search with number \<open>n\<close>.\<close>

definition search_rows :: "(nat \<Rightarrow> string list) \<Rightarrow> nat \<Rightarrow> video_record list" where
  "search_rows ids n =
     map (\<lambda>v. sampler_record (candidate v (Val (views_at_search n))) ''some words'') (ids n)"

section \<open>Properties of the channel reference normaliser\<close>

lemma rstrip_char_id: "\<not> endswith s [c] \<Longrightarrow> rstrip_char c s = s"
  unfolding rstrip_char_def endswith_def
  by (cases "rev s") (auto simp: suffix_def)

lemma rstrip_char_idem: "rstrip_char c (rstrip_char c s) = rstrip_char c s"
  unfolding rstrip_char_def by (simp add: dropWhile_idem)

text \<open>
  Claim C7 (as amended). \<open>normalize_to_videos_page\<close> has no error path and treats every
  input alike: it returns the input unchanged when the input with its trailing slashes
  removed ends with \<open>/videos\<close>, and otherwise returns the input with its trailing slashes
  removed and \<open>/videos\<close> appended. The result, trailing slashes apart, always ends with
  \<open>/videos\<close>, and on an input that does not end with a slash the function is the rule
  of the specification.
\<close>

theorem normalize_to_videos_page_rule:
  "normalize_to_videos_page url =
     (if endswith (rstrip_char CHR ''/'' url) ''/videos'' then url
      else rstrip_char CHR ''/'' url @ ''/videos'')
   \<and> endswith (rstrip_char CHR ''/'' (normalize_to_videos_page url)) ''/videos''
   \<and> (\<not> endswith url ''/'' \<longrightarrow> normalize_to_videos_page url = normalize_spec url)"
proof (intro conjI impI)
  show "normalize_to_videos_page url =
     (if endswith (rstrip_char CHR ''/'' url) ''/videos'' then url
      else rstrip_char CHR ''/'' url @ ''/videos'')"
    by (simp add: normalize_to_videos_page_def)
  show "endswith (rstrip_char CHR ''/'' (normalize_to_videos_page url)) ''/videos''"
    unfolding normalize_to_videos_page_def
    by (auto simp: endswith_def rstrip_char_def suffix_def)
  show "normalize_to_videos_page url = normalize_spec url" if "\<not> endswith url ''/''"
    using that by (simp add: normalize_to_videos_page_def normalize_spec_def rstrip_char_id)
qed

theorem normalize_to_videos_page_rule_witness:
  "\<not> endswith ''https://www.youtube.com/@CosmicSkeptic'' ''/''
   \<and> normalize_to_videos_page ''https://www.youtube.com/@CosmicSkeptic''
       = ''https://www.youtube.com/@CosmicSkeptic/videos''
   \<and> normalize_spec ''https://www.youtube.com/@CosmicSkeptic''
       = ''https://www.youtube.com/@CosmicSkeptic/videos''"
  using normalize_to_videos_page_rule [of "''https://www.youtube.com/@CosmicSkeptic''"]
  by (simp add: normalize_spec_def rstrip_char_def endswith_def suffix_to_prefix)

text \<open>
  The claim as stated fails on an input with a trailing slash: the slash is removed before
  the suffix is appended, and an input ending with \<open>/videos/\<close> is returned as it is
  although it does not end with \<open>/videos\<close>.
\<close>

theorem normalize_to_videos_page_counterexample:
  "normalize_to_videos_page ''https://www.youtube.com/@CosmicSkeptic/''
     = ''https://www.youtube.com/@CosmicSkeptic/videos''
   \<and> normalize_spec ''https://www.youtube.com/@CosmicSkeptic/''
     = ''https://www.youtube.com/@CosmicSkeptic//videos''
   \<and> normalize_to_videos_page ''https://www.youtube.com/@CosmicSkeptic/''
     \<noteq> normalize_spec ''https://www.youtube.com/@CosmicSkeptic/''
   \<and> \<not> endswith ''https://www.youtube.com/@CosmicSkeptic/videos/'' ''/videos''
   \<and> normalize_to_videos_page ''https://www.youtube.com/@CosmicSkeptic/videos/''
     = ''https://www.youtube.com/@CosmicSkeptic/videos/''
   \<and> normalize_to_videos_page ''https://www.youtube.com/@CosmicSkeptic/videos/''
     \<noteq> normalize_spec ''https://www.youtube.com/@CosmicSkeptic/videos/''"
  by (simp add: normalize_to_videos_page_def normalize_spec_def rstrip_char_def endswith_def
      suffix_to_prefix)

section \<open>Properties of the chunker\<close>

lemma range_from_chunks:
  "0 < step \<Longrightarrow>
   concat (map (\<lambda>i. take step (drop i xs)) (range_from i (length xs) step)) = drop i xs"
proof (induction i "length xs" step rule: range_from.induct)
  case (1 i step)
  show ?case
  proof (cases "length xs \<le> i")
    case True
    then show ?thesis by (subst range_from.simps) simp
  next
    case False
    with 1 have IH: "concat (map (\<lambda>i. take step (drop i xs))
        (range_from (i + step) (length xs) step)) = drop (i + step) xs"
      by simp
    have unf: "range_from i (length xs) step = i # range_from (i + step) (length xs) step"
      using False 1(2) by (subst range_from.simps) simp
    have "drop (i + step) xs = drop step (drop i xs)"
      by (simp add: add.commute)
    with IH have "concat (map (\<lambda>i. take step (drop i xs)) (range_from i (length xs) step))
        = take step (drop i xs) @ drop step (drop i xs)"
      by (simp only: unf list.map concat.simps)
    then show ?thesis by (simp only: append_take_drop_id)
  qed
qed

lemma ceil_step:
  fixes i :: nat
  assumes "0 < step" and "i < stop"
  shows "(stop - i + step - 1) div step = Suc ((stop - (i + step) + step - 1) div step)"
proof (cases "stop - i \<le> step")
  case True
  with assms have "(stop - i + step - 1) div step = 1"
    by (intro div_nat_eqI) auto
  moreover from True assms have "(stop - (i + step) + step - 1) div step = 0"
    by simp
  ultimately show ?thesis by simp
next
  case False
  then have "stop - i + step - 1 = (stop - (i + step) + step - 1) + step"
    by simp
  then have "(stop - i + step - 1) div step = ((stop - (i + step) + step - 1) + step) div step"
    by simp
  also have "\<dots> = Suc ((stop - (i + step) + step - 1) div step)"
    using assms by (simp only: div_add_self2 Suc_eq_plus1)
  finally show ?thesis .
qed

lemma range_from_length:
  "0 < step \<Longrightarrow> length (range_from i stop step) = (stop - i + step - 1) div step"
proof (induction i stop step rule: range_from.induct)
  case (1 i stop step)
  show ?case
  proof (cases "stop \<le> i")
    case True
    with 1(2) show ?thesis by (subst range_from.simps) simp
  next
    case False
    with 1 have IH: "length (range_from (i + step) stop step)
        = (stop - (i + step) + step - 1) div step"
      by simp
    from False 1(2) have "(stop - i + step - 1) div step
        = Suc ((stop - (i + step) + step - 1) div step)"
      by (intro ceil_step) auto
    with False 1(2) IH show ?thesis by (subst range_from.simps) simp
  qed
qed

lemma ceil_div_nat:
  assumes C: "0 < C"
  shows "nat \<lceil>real L / real C\<rceil> = (L + C - 1) div C"
proof -
  define q where "q = (L + C - 1) div C"
  have 1: "q * C \<le> L + C - 1"
    unfolding q_def by simp
  have 2: "L + C - 1 < q * C + C"
    unfolding q_def using C dividend_less_div_times[of C "L + C - 1"]
    by (simp add: mult.commute)
  have "\<lceil>real L / real C\<rceil> = int q"
  proof (rule ceiling_unique)
    from 1 C have "q * C < L + C" by linarith
    then have "real (q * C) < real (L + C)" by (simp only: of_nat_less_iff)
    then have "(real q - 1) * real C < real L" by (simp add: algebra_simps)
    with C show "of_int (int q) - 1 < real L / real C" by (simp add: pos_less_divide_eq)
    from 2 C have "L \<le> q * C" by linarith
    then have "real L \<le> real (q * C)" by (simp only: of_nat_le_iff)
    with C show "real L / real C \<le> of_int (int q)" by (simp add: pos_divide_le_eq)
  qed
  then show ?thesis unfolding q_def by simp
qed

lemma py_slice_pos: "0 < C \<Longrightarrow> py_slice xs i (int i + C) = take (nat C) (drop i xs)"
  unfolding py_slice_def Let_def
  by (auto simp: min_def nat_add_distrib)

text \<open>
  Claim C1. For a chunk size \<open>C > 0\<close> and a transcript whose tokenisation has \<open>L\<close>
  identifiers, \<open>transcript_to_id_chunks\<close> returns (without raising) exactly
  \<open>\<lceil>L / C\<rceil>\<close> windows, each of at most \<open>C\<close> identifiers, whose concatenation in
  order is the tokenisation itself; there is no window exactly when \<open>L = 0\<close>.
\<close>

theorem transcript_to_id_chunks_cover:
  fixes encode :: "string \<Rightarrow> 'tok list"
  assumes "0 < C"
  shows "\<exists>chunks. transcript_to_id_chunks encode text C = Inr chunks
           \<and> length chunks = nat \<lceil>real (length (encode text)) / real_of_int C\<rceil>
           \<and> (\<forall>w \<in> set chunks. int (length w) \<le> C)
           \<and> concat chunks = encode text
           \<and> (length (encode text) = 0 \<longrightarrow> chunks = [])"
proof -
  define ids where "ids = encode text"
  define c where "c = nat C"
  define chunks where "chunks = map (\<lambda>i. take c (drop i ids)) (range_from 0 (length ids) c)"
  from assms have c: "0 < c" "C = int c"
    by (simp_all add: c_def)
  have sl: "\<And>i. py_slice ids i (int i + C) = take c (drop i ids)"
    using assms by (simp add: py_slice_pos c_def)
  have res: "transcript_to_id_chunks encode text C = Inr chunks"
    using assms
    by (simp add: transcript_to_id_chunks_def py_range0_def Let_def sl chunks_def
        flip: ids_def c_def)
  have len: "length chunks = nat \<lceil>real (length ids) / real_of_int C\<rceil>"
    using c by (simp add: chunks_def range_from_length ceil_div_nat)
  have bound: "\<forall>w \<in> set chunks. int (length w) \<le> C"
    using c by (auto simp: chunks_def)
  have cat: "concat chunks = ids"
    using range_from_chunks [OF c(1), of ids 0] by (simp add: chunks_def)
  have empty: "length ids = 0 \<longrightarrow> chunks = []"
    by (simp add: chunks_def range_from.simps)
  from res len bound cat empty show ?thesis
    by (auto simp: ids_def)
qed

theorem transcript_to_id_chunks_cover_witness:
  "(0::int) < 2
   \<and> transcript_to_id_chunks (\<lambda>s. map of_char s :: nat list) ''hello'' 2
       = Inr [[104, 101], [108, 108], [111]]
   \<and> nat \<lceil>real (length (map of_char ''hello'' :: nat list)) / real_of_int 2\<rceil> = 3
   \<and> length (map of_char [] :: nat list) = 0
   \<and> transcript_to_id_chunks (\<lambda>s. map of_char s :: nat list) [] 2 = Inr []"
  using transcript_to_id_chunks_cover [of 2 "\<lambda>s. map of_char s :: nat list" "''hello''"]
    transcript_to_id_chunks_cover [of 2 "\<lambda>s. map of_char s :: nat list" "[]"]
  by (simp add: transcript_to_id_chunks_def py_range0_def py_slice_def range_from.simps)

section \<open>Properties of the scoring loop\<close>

lemma score_transcript_no_window:
  "transcript_to_id_chunks (encode tk) t C = Inr [] \<Longrightarrow>
   score_transcript tk ops t C = Inl ZeroDivisionError"
  by (simp add: score_transcript_def py_mean_def)

lemma chunks_of_empty:
  "C \<noteq> 0 \<Longrightarrow> enc t = [] \<Longrightarrow> transcript_to_id_chunks enc t C = Inr []"
  by (simp add: transcript_to_id_chunks_def py_range0_def range_from.simps)

lemma chunks_never_raise:
  "0 < C \<Longrightarrow> \<exists>chunks. transcript_to_id_chunks enc t C = Inr chunks"
  by (simp add: transcript_to_id_chunks_def py_range0_def Let_def)

lemma score_transcript_errors:
  "0 < C \<Longrightarrow> score_transcript tk ops t C = Inl e \<Longrightarrow> e = ZeroDivisionError"
  using chunks_never_raise [of C "encode tk" t]
  by (auto simp: score_transcript_def py_mean_def Let_def split: if_splits)

lemma score_rows_no_window:
  "0 < C \<Longrightarrow> t \<in> set ts \<Longrightarrow> encode tk t = [] \<Longrightarrow>
   score_rows tk ops C ts acc = Inl ZeroDivisionError"
proof (induction ts arbitrary: acc)
  case Nil
  then show ?case by simp
next
  case (Cons a ts)
  show ?case
  proof (cases "score_transcript tk ops a C")
    case (Inl e)
    with Cons.prems(1) show ?thesis
      by (simp add: score_transcript_errors)
  next
    case (Inr r)
    have "a \<noteq> t"
    proof
      assume "a = t"
      with Cons.prems have "score_transcript tk ops a C = Inl ZeroDivisionError"
        by (simp add: score_transcript_no_window chunks_of_empty)
      with Inr show False by simp
    qed
    with Cons Inr show ?thesis by simp
  qed
qed

lemma set_dropna_read: "set (dropna (read_csv_column na cells)) = set cells - set na"
  by (induction cells) (auto simp: dropna_def read_csv_column_def)

text \<open>
  Claim C8. A transcript whose tokenisation yields no window makes the averaging step
  raise ZeroDivisionError; nothing handles it. The empty cells of the input file never
  reach the loop, but a run over a file that holds a transcript which is not an NA
  marker and has no token ends with that exception instead of scores: the scoring is not
  total.
\<close>

theorem score_transcript_zero_windows:
  fixes tk :: "'tok classifier"
  shows "(transcript_to_id_chunks (encode tk) t C = Inr [] \<longrightarrow>
            score_transcript tk ops t C = Inl ZeroDivisionError)
       \<and> (C \<noteq> 0 \<and> encode tk t = [] \<longrightarrow> score_transcript tk ops t C = Inl ZeroDivisionError)
       \<and> set (dropna (read_csv_column na cells)) = set cells - set na
       \<and> (2 < model_max_length tk \<and> t \<in> set cells \<and> t \<notin> set na \<and> encode tk t = [] \<longrightarrow>
            transformer_script tk ops na cells = Inl ZeroDivisionError)"
proof (intro conjI impI)
  show "score_transcript tk ops t C = Inl ZeroDivisionError"
    if "transcript_to_id_chunks (encode tk) t C = Inr []"
    using that by (rule score_transcript_no_window)
  show "score_transcript tk ops t C = Inl ZeroDivisionError" if "C \<noteq> 0 \<and> encode tk t = []"
    using that by (simp add: score_transcript_no_window chunks_of_empty)
  show "set (dropna (read_csv_column na cells)) = set cells - set na"
    by (rule set_dropna_read)
  show "transformer_script tk ops na cells = Inl ZeroDivisionError"
    if "2 < model_max_length tk \<and> t \<in> set cells \<and> t \<notin> set na \<and> encode tk t = []"
    unfolding transformer_script_def
    using that by (intro score_rows_no_window [of _ t]) (auto simp: set_dropna_read)
qed

theorem score_transcript_zero_windows_witness:
  "transcript_to_id_chunks (encode example_classifier) [CHR 0x7F] 510 = Inr []
   \<and> score_transcript example_classifier exact_ops [CHR 0x7F] 510 = Inl ZeroDivisionError
   \<and> (2::int) < model_max_length example_classifier
   \<and> [CHR 0x7F] \<notin> set pandas_na_values
   \<and> dropna (read_csv_column pandas_na_values [''good'', [], [CHR 0x7F], ''bad''])
       = [''good'', [CHR 0x7F], ''bad'']
   \<and> transformer_script example_classifier exact_ops pandas_na_values
         [''good'', [], [CHR 0x7F], ''bad''] = Inl ZeroDivisionError
   \<and> transformer_script example_classifier exact_ops pandas_na_values [''good'', [], ''bad'']
       = Inr [(1 / 7, 6 / 7, 5 / 7), (1 / 6, 5 / 6, 2 / 3)]"
proof -
  note t = score_transcript_zero_windows [where tk = example_classifier and ops = exact_ops
      and t = "[CHR 0x7F]" and na = pandas_na_values
      and cells = "[''good'', [], [CHR 0x7F], ''bad'']"]
  have chunks: "transcript_to_id_chunks (encode example_classifier) [CHR 0x7F] 510 = Inr []"
    by (simp add: example_classifier_def transcript_to_id_chunks_def py_range0_def
        range_from.simps)
  from t [where C = 510, THEN conjunct1, rule_format, OF chunks]
  have one: "score_transcript example_classifier exact_ops [CHR 0x7F] 510 = Inl ZeroDivisionError" .
  have hyp: "2 < model_max_length example_classifier
      \<and> [CHR 0x7F] \<in> set [''good'', [], [CHR 0x7F], ''bad'']
      \<and> [CHR 0x7F] \<notin> set pandas_na_values
      \<and> encode example_classifier [CHR 0x7F] = []"
    by (simp add: example_classifier_def pandas_na_values_def)
  from t [where C = 510, THEN conjunct2, THEN conjunct2, THEN conjunct2, rule_format, OF hyp]
  have run: "transformer_script example_classifier exact_ops pandas_na_values
         [''good'', [], [CHR 0x7F], ''bad''] = Inl ZeroDivisionError" .
  have dropped: "dropna (read_csv_column pandas_na_values [''good'', [], [CHR 0x7F], ''bad''])
       = [''good'', [CHR 0x7F], ''bad'']"
    by (simp add: dropna_def read_csv_column_def pandas_na_values_def)
  have fine: "transformer_script example_classifier exact_ops pandas_na_values
      [''good'', [], ''bad''] = Inr [(1 / 7, 6 / 7, 5 / 7), (1 / 6, 5 / 6, 2 / 3)]"
    by (simp add: example_classifier_def exact_ops_def transformer_script_def
        score_transcript_def py_mean_def transcript_to_id_chunks_def py_range0_def
        range_from.simps py_slice_def window_probs_def softmax2_def dropna_def
        read_csv_column_def pandas_na_values_def)
  from chunks one hyp run dropped fine show ?thesis
    by simp
qed






section \<open>Properties of the channel harvest\<close>

lemma fetch_metadata_cases:
  fixes env vid st
  defines "url \<equiv> ''https://www.youtube.com/watch?v='' @ vid"
  defines "first \<equiv> extract_video env (video_calls st) url"
  defines "second \<equiv> extract_video env (video_calls st + 1) url"
  shows "(first = Inr info \<longrightarrow>
            fetch_metadata env vid st = (Some info, st\<lparr>video_calls := video_calls st + 1\<rparr>))
      \<and> (first = Inl (DownloadError msg) \<and> py_in ''rate-limited'' (lower msg) \<and> second = Inr info \<longrightarrow>
            fetch_metadata env vid st =
              (Some info, st\<lparr>video_calls := video_calls st + 2,
                              sleeps := sleeps st @ [Seconds 60]\<rparr>))
      \<and> (first = Inl (DownloadError msg) \<and> py_in ''rate-limited'' (lower msg) \<and> second = Inl e2 \<longrightarrow>
            fetch_metadata env vid st =
              (None, st\<lparr>video_calls := video_calls st + 2,
                         sleeps := sleeps st @ [Seconds 60, Throttle],
                         skipped_no_transcript := skipped_no_transcript st + 1\<rparr>))
      \<and> (first = Inl e \<and> (\<forall>m. e = DownloadError m \<longrightarrow> \<not> py_in ''rate-limited'' (lower m)) \<longrightarrow>
            fetch_metadata env vid st =
              (None, st\<lparr>video_calls := video_calls st + 1,
                         sleeps := sleeps st @ [Throttle],
                         skipped_no_transcript := skipped_no_transcript st + 1\<rparr>))"
  unfolding first_def second_def url_def
  by (cases e) (auto simp: fetch_metadata_def Let_def skip_video_def throttle_def)

lemma fetch_metadata_calls:
  "video_calls (snd (fetch_metadata env vid st)) \<le> video_calls st + 2
   \<and> video_calls st < video_calls (snd (fetch_metadata env vid st))
   \<and> rows (snd (fetch_metadata env vid st)) = rows st"
  by (auto simp: fetch_metadata_def Let_def skip_video_def throttle_def
      split: sum.splits exn.splits)

lemma process_entry_calls:
  "video_calls (process_entry env e st) \<le> video_calls st + 2"
proof (cases "dict_get (id_key e)")
  case None
  then show ?thesis by (simp add: process_entry_def)
next
  case (Some vid)
  define st1 where "st1 = st\<lparr>transcript_calls := transcript_calls st + 1\<rparr>"
  show ?thesis
  proof (cases "vid = []")
    case True
    with Some show ?thesis by (simp add: process_entry_def)
  next
    case False
    show ?thesis
    proof (cases "fetch_transcript (get_transcript env (transcript_calls st)) (Some vid)")
      case (Inl ex)
      with Some False show ?thesis
        by (cases ex) (simp_all add: process_entry_def skip_video_def throttle_def)
    next
      case (Inr tr)
      obtain r st2 where fm: "fetch_metadata env vid st1 = (r, st2)"
        by (cases "fetch_metadata env vid st1")
      with fetch_metadata_calls [of env vid st1]
      have "video_calls st2 \<le> video_calls st + 2"
        by (simp add: st1_def)
      with Some False Inr fm show ?thesis
        by (cases r) (simp_all add: process_entry_def throttle_def st1_def)
    qed
  qed
qed

lemma process_entry_skip:
  "dict_get (id_key e) = Some vid \<Longrightarrow> vid \<noteq> [] \<Longrightarrow>
   fetch_transcript (get_transcript env (transcript_calls st)) (Some vid) = Inr text \<Longrightarrow>
   fst (fetch_metadata env vid (st\<lparr>transcript_calls := transcript_calls st + 1\<rparr>)) = None \<Longrightarrow>
   rows (process_entry env e st) = rows st"
  using fetch_metadata_calls [of env vid "st\<lparr>transcript_calls := transcript_calls st + 1\<rparr>"]
  by (auto simp: process_entry_def Let_def split: prod.splits option.splits)

lemma channel_main_finishes:
  "url \<noteq> [] \<Longrightarrow> extract_playlist env 0 (normalize_to_videos_page url) = Inr (Val es) \<Longrightarrow>
   es \<noteq> [] \<Longrightarrow> channel_main env url = Finished (process_entries env es channel_start)"
  by (simp add: channel_main_def dict_get_default_def)


text \<open>
  Claim C3. The metadata step of a video calls the metadata service once. When that call
  raises the service's error (DownloadError) with a message that contains
  \<open>rate-limited\<close> (in lower case), the step sleeps 60 seconds and calls once more; any
  other exception of the first call, or any exception of the second, skips the video:
  the skip is counted, no row is written, and the loop goes on to the next entry, the
  run finishing whatever the metadata service answers. One video costs at least one and
  at most two metadata requests, in the step and in the whole body of the loop.
\<close>

theorem metadata_fetch_retry_once:
  fixes env vid st
  defines "url \<equiv> ''https://www.youtube.com/watch?v='' @ vid"
  defines "first \<equiv> extract_video env (video_calls st) url"
  defines "second \<equiv> extract_video env (video_calls st + 1) url"
  shows "(first = Inr info \<longrightarrow>
            fetch_metadata env vid st = (Some info, st\<lparr>video_calls := video_calls st + 1\<rparr>))
      \<and> (first = Inl (DownloadError msg) \<and> py_in ''rate-limited'' (lower msg)
            \<and> second = Inr info \<longrightarrow>
            fetch_metadata env vid st =
              (Some info, st\<lparr>video_calls := video_calls st + 2,
                              sleeps := sleeps st @ [Seconds 60]\<rparr>))
      \<and> (first = Inl (DownloadError msg) \<and> py_in ''rate-limited'' (lower msg)
            \<and> second = Inl e2 \<longrightarrow>
            fetch_metadata env vid st =
              (None, st\<lparr>video_calls := video_calls st + 2,
                         sleeps := sleeps st @ [Seconds 60, Throttle],
                         skipped_no_transcript := skipped_no_transcript st + 1\<rparr>))
      \<and> (first = Inl e \<and> (\<forall>m. e = DownloadError m \<longrightarrow> \<not> py_in ''rate-limited'' (lower m)) \<longrightarrow>
            fetch_metadata env vid st =
              (None, st\<lparr>video_calls := video_calls st + 1,
                         sleeps := sleeps st @ [Throttle],
                         skipped_no_transcript := skipped_no_transcript st + 1\<rparr>))
      \<and> video_calls st < video_calls (snd (fetch_metadata env vid st))
      \<and> video_calls (snd (fetch_metadata env vid st)) \<le> video_calls st + 2
      \<and> rows (snd (fetch_metadata env vid st)) = rows st
      \<and> video_calls (process_entry env entry st) \<le> video_calls st + 2
      \<and> (dict_get (id_key entry) = Some vid \<and> vid \<noteq> []
            \<and> fetch_transcript (get_transcript env (transcript_calls st)) (Some vid) = Inr tr
            \<and> fst (fetch_metadata env vid (st\<lparr>transcript_calls := transcript_calls st + 1\<rparr>)) = None
          \<longrightarrow> rows (process_entry env entry st) = rows st)
      \<and> (channel_url \<noteq> []
            \<and> extract_playlist env 0 (normalize_to_videos_page channel_url) = Inr (Val entries)
            \<and> entries \<noteq> []
          \<longrightarrow> channel_main env channel_url = Finished (process_entries env entries channel_start))"
proof -
  note c = fetch_metadata_cases [where env = env and st = st and vid = vid and info = info
      and msg = msg and ?e2.0 = e2 and e = e, folded url_def, folded first_def second_def]
  note k = fetch_metadata_calls [of env vid st]
  show ?thesis
    using c k process_entry_calls [of env entry st]
      process_entry_skip [of entry vid env st tr]
      channel_main_finishes [of channel_url env entries]
    by blast
qed


theorem metadata_fetch_retry_once_witness:
  "extract_video retry_env 0 ''https://www.youtube.com/watch?v=v1''
     = Inl (DownloadError ''ERROR: You are being Rate-Limited by YouTube'')
   \<and> py_in ''rate-limited'' (lower ''ERROR: You are being Rate-Limited by YouTube'')
   \<and> extract_video retry_env 1 ''https://www.youtube.com/watch?v=v1'' = Inr example_info
   \<and> fetch_metadata retry_env ''v1'' channel_start
       = (Some example_info, channel_start\<lparr>video_calls := 2, sleeps := [Seconds 60]\<rparr>)
   \<and> channel_main retry_env CHANNEL_URL =
       Finished
        \<lparr>playlist_calls = 1, video_calls = 6, transcript_calls = 4, choice_calls = 0,
         sleeps = [Seconds 60, Throttle, Throttle, Seconds 60, Throttle, Throttle],
         rows =
           [\<lparr>video_id = Some ''v1'', views = 1234, likes = 0, comments = 0,
             title = Some ''A talk'', published_at = Some ''20240101'',
             transcript = ''hello''\<rparr>,
            \<lparr>video_id = Some ''v4'', views = 1234, likes = 0, comments = 0,
             title = Some ''A talk'', published_at = Some ''20240101'',
             transcript = ''hello''\<rparr>],
         processed = 2, skipped_no_transcript = 2\<rparr>"
proof -
  have first: "extract_video retry_env (video_calls channel_start)
      (''https://www.youtube.com/watch?v='' @ ''v1'')
     = Inl (DownloadError ''ERROR: You are being Rate-Limited by YouTube'')"
    by (simp add: retry_env_def channel_start_def)
  have limited: "py_in ''rate-limited'' (lower ''ERROR: You are being Rate-Limited by YouTube'')"
    by code_simp
  have second: "extract_video retry_env (video_calls channel_start + 1)
      (''https://www.youtube.com/watch?v='' @ ''v1'') = Inr example_info"
    by (simp add: retry_env_def channel_start_def)
  have run: "channel_main retry_env CHANNEL_URL =
       Finished
        \<lparr>playlist_calls = 1, video_calls = 6, transcript_calls = 4, choice_calls = 0,
         sleeps = [Seconds 60, Throttle, Throttle, Seconds 60, Throttle, Throttle],
         rows =
           [\<lparr>video_id = Some ''v1'', views = 1234, likes = 0, comments = 0,
             title = Some ''A talk'', published_at = Some ''20240101'',
             transcript = ''hello''\<rparr>,
            \<lparr>video_id = Some ''v4'', views = 1234, likes = 0, comments = 0,
             title = Some ''A talk'', published_at = Some ''20240101'',
             transcript = ''hello''\<rparr>],
         processed = 2, skipped_no_transcript = 2\<rparr>"
    by code_simp
  from metadata_fetch_retry_once [where env = retry_env and vid = "''v1''"
      and st = channel_start and info = example_info
      and msg = "''ERROR: You are being Rate-Limited by YouTube''"] first limited second
  have "fetch_metadata retry_env ''v1'' channel_start =
      (Some example_info, channel_start\<lparr>video_calls := video_calls channel_start + 2,
         sleeps := sleeps channel_start @ [Seconds 60]\<rparr>)"
    by blast
  with first limited second run show ?thesis
    by (simp add: channel_start_def)
qed

section \<open>Properties of the transcript fetcher\<close>

lemma strip_id: "s \<noteq> [] \<Longrightarrow> \<not> is_space (hd s) \<Longrightarrow> \<not> is_space (last s) \<Longrightarrow> strip s = s"
proof -
  assume s: "s \<noteq> []" "\<not> is_space (hd s)" "\<not> is_space (last s)"
  then have "dropWhile is_space s = s"
    by (cases s) simp_all
  moreover from s have "dropWhile is_space (rev s) = rev s"
    by (cases "rev s") (simp_all add: last_rev hd_rev)
  ultimately show ?thesis
    by (simp add: strip_def)
qed

lemma fetch_transcript_raise:
  "service vid = Inl e \<Longrightarrow> fetch_transcript service vid = Inl e"
  by (simp add: fetch_transcript_def)

lemma fetch_transcript_return:
  "service vid = Inr segs \<Longrightarrow>
   fetch_transcript service vid =
     (if strip (join '' '' segs) = [] then Inl (ValueError ''empty transcript'')
      else Inr (strip (join '' '' segs)))"
  by (simp add: fetch_transcript_def Let_def)

lemma strip_hello_world: "strip ''hello world'' = ''hello world''"
  by (simp add: strip_def is_space_def)

lemma process_entry_no_transcript:
  "dict_get (id_key e) = Some vid \<Longrightarrow> vid \<noteq> [] \<Longrightarrow>
   fetch_transcript (get_transcript env (transcript_calls st)) (Some vid) = Inl ex \<Longrightarrow>
   process_entry env e st = skip_video (st\<lparr>transcript_calls := transcript_calls st + 1\<rparr>)"
  by (cases ex) (simp_all add: process_entry_def)

lemma process_entry_row:
  "dict_get (id_key e) = Some vid \<Longrightarrow> vid \<noteq> [] \<Longrightarrow>
   fetch_transcript (get_transcript env (transcript_calls st)) (Some vid) = Inr tr \<Longrightarrow>
   extract_video env (video_calls st) (''https://www.youtube.com/watch?v='' @ vid) = Inr info \<Longrightarrow>
   process_entry env e st =
     throttle (st\<lparr>transcript_calls := transcript_calls st + 1,
                  video_calls := video_calls st + 1,
                  rows := rows st @ [channel_row vid info tr],
                  processed := processed st + 1\<rparr>)"
  by (simp add: process_entry_def fetch_metadata_def)

lemma channel_scenario:
  assumes url: "channel_url \<noteq> []"
    and listing: "extract_playlist env 0 (normalize_to_videos_page channel_url)
                   = Inr (Val [ea, eb, ec])"
    and ids: "dict_get (id_key ea) = Some a" "dict_get (id_key eb) = Some b"
      "dict_get (id_key ec) = Some c" "a \<noteq> []" "b \<noteq> []" "c \<noteq> []"
    and ta: "\<forall>n. get_transcript env n (Some a) = Inl TranscriptsDisabled"
    and tb: "\<forall>n. get_transcript env n (Some b) = Inr []"
    and tc: "\<forall>n. get_transcript env n (Some c) = Inr [''hello world'']"
    and meta: "\<forall>n. extract_video env n (''https://www.youtube.com/watch?v='' @ c) = Inr info"
  shows "channel_main env channel_url =
     Finished (channel_start
       \<lparr>transcript_calls := 3, video_calls := 1, sleeps := [Throttle, Throttle, Throttle],
        rows := [channel_row c info ''hello world''], processed := 1,
        skipped_no_transcript := 2\<rparr>)"
proof -
  have fa: "\<And>n. fetch_transcript (get_transcript env n) (Some a) = Inl TranscriptsDisabled"
    using ta by (simp add: fetch_transcript_raise)
  have fb: "\<And>n. fetch_transcript (get_transcript env n) (Some b)
                 = Inl (ValueError ''empty transcript'')"
    using tb by (simp add: fetch_transcript_return strip_def)
  have fc: "\<And>n. fetch_transcript (get_transcript env n) (Some c) = Inr ''hello world''"
    using tc by (simp add: fetch_transcript_return strip_hello_world)
  define s1 where "s1 = process_entry env ea channel_start"
  define s2 where "s2 = process_entry env eb s1"
  define s3 where "s3 = process_entry env ec s2"
  have 1: "s1 = channel_start\<lparr>transcript_calls := 1, sleeps := [Throttle],
                 skipped_no_transcript := 1\<rparr>"
    unfolding s1_def
    by (simp add: process_entry_no_transcript [OF ids(1) ids(4) fa] skip_video_def throttle_def
        channel_start_def)
  have 2: "s2 = channel_start\<lparr>transcript_calls := 2, sleeps := [Throttle, Throttle],
                 skipped_no_transcript := 2\<rparr>"
    unfolding s2_def
    by (simp add: process_entry_no_transcript [OF ids(2) ids(5) fb] skip_video_def throttle_def
        channel_start_def 1)
  have 3: "s3 = channel_start
       \<lparr>transcript_calls := 3, video_calls := 1, sleeps := [Throttle, Throttle, Throttle],
        rows := [channel_row c info ''hello world''], processed := 1,
        skipped_no_transcript := 2\<rparr>"
    unfolding s3_def
    using meta
    by (simp add: process_entry_row [OF ids(3) ids(6) fc] throttle_def channel_start_def 2)
  have "channel_main env channel_url = Finished s3"
    using url listing by (simp add: channel_main_def dict_get_default_def s1_def s2_def s3_def)
  with 3 show ?thesis by simp
qed

lemma join_spaced: "join '' '' segs = spaced_segments segs"
proof (induction "'' ''" segs rule: join.induct)
  case 1
  show ?case by (simp add: spaced_segments_def)
next
  case (2 x)
  show ?case by (simp add: spaced_segments_def)
next
  case (3 x y ys)
  then show ?case by (simp add: spaced_segments_def)
qed

lemma strip_parts:
  "\<exists>pre post. s = pre @ strip s @ post \<and> list_all is_space pre \<and> list_all is_space post"
proof -
  define d where "d = dropWhile is_space s"
  have "s = takeWhile is_space s @ d"
    by (simp add: d_def)
  moreover have "rev d = takeWhile is_space (rev d) @ dropWhile is_space (rev d)"
    by simp
  then have "d = rev (dropWhile is_space (rev d)) @ rev (takeWhile is_space (rev d))"
    by (metis rev_append rev_rev_ident)
  then have "d = strip s @ rev (takeWhile is_space (rev d))"
    by (simp add: strip_def d_def)
  ultimately have "s = takeWhile is_space s @ strip s @ rev (takeWhile is_space (rev d))"
    by simp
  moreover have "list_all is_space (takeWhile is_space s)"
    and "list_all is_space (rev (takeWhile is_space (rev d)))"
    by (auto simp: list_all_iff dest: set_takeWhileD)
  ultimately show ?thesis by blast
qed

lemma strip_ends:
  assumes "strip s \<noteq> []"
  shows "\<not> is_space (hd (strip s)) \<and> \<not> is_space (last (strip s))"
proof -
  define d where "d = dropWhile is_space s"
  define r where "r = dropWhile is_space (rev d)"
  have st: "strip s = rev r"
    by (simp add: strip_def d_def r_def)
  with assms have r: "r \<noteq> []" by simp
  then have "\<not> is_space (hd r)"
    unfolding r_def by (rule hd_dropWhile)
  with r have l: "\<not> is_space (last (strip s))"
    by (simp add: st last_rev)
  have "rev d = takeWhile is_space (rev d) @ r"
    by (simp add: r_def)
  then have "d = rev r @ rev (takeWhile is_space (rev d))"
    by (metis rev_append rev_rev_ident)
  then obtain post where post: "d = rev r @ post"
    by blast
  from r have "hd (rev r @ post) = hd (rev r)" and "rev r @ post \<noteq> []"
    by (simp_all add: hd_append)
  with post have "d \<noteq> []" and "hd d = hd (rev r)"
    by simp_all
  moreover from \<open>d \<noteq> []\<close> have "\<not> is_space (hd d)"
    unfolding d_def by (rule hd_dropWhile)
  ultimately have "\<not> is_space (hd (strip s))"
    by (simp add: st)
  with l show ?thesis by simp
qed

lemma strip_blank: "(strip s = []) = list_all is_space s"
proof
  assume "strip s = []"
  with strip_parts [of s] show "list_all is_space s"
    by (auto simp: list_all_iff)
next
  assume "list_all is_space s"
  then have "\<forall>x \<in> set s. is_space x"
    by (simp only: list_all_iff)
  then have e: "dropWhile is_space s = []"
    by (simp only: dropWhile_eq_Nil_conv)
  show "strip s = []"
    unfolding strip_def e by simp
qed

lemma process_entry_rows:
  assumes "dict_get (id_key e) = Some vid" and "vid \<noteq> []"
    and "fetch_transcript (get_transcript env (transcript_calls st)) (Some vid) = Inr tr"
  shows "rows (process_entry env e st) = rows st
       \<or> (\<exists>info. rows (process_entry env e st) = rows st @ [channel_row vid info tr])"
proof -
  define st1 where "st1 = st\<lparr>transcript_calls := transcript_calls st + 1\<rparr>"
  obtain r st2 where fm: "fetch_metadata env vid st1 = (r, st2)"
    by (cases "fetch_metadata env vid st1")
  with fetch_metadata_calls [of env vid st1] have "rows st2 = rows st"
    by (simp add: st1_def)
  with assms fm show ?thesis
    by (cases r) (auto simp: process_entry_def throttle_def st1_def)
qed

lemma channel_scenario_rows:
  assumes url: "channel_url \<noteq> []"
    and listing: "extract_playlist env 0 (normalize_to_videos_page channel_url)
                   = Inr (Val [ea, eb, ec])"
    and ids: "dict_get (id_key ea) = Some a" "dict_get (id_key eb) = Some b"
      "dict_get (id_key ec) = Some c" "a \<noteq> []" "b \<noteq> []" "c \<noteq> []"
    and ta: "\<forall>n. get_transcript env n (Some a) = Inl TranscriptsDisabled"
    and tb: "\<forall>n. get_transcript env n (Some b) = Inr []"
    and tc: "\<forall>n. get_transcript env n (Some c) = Inr [''hello world'']"
  shows "\<exists>st. channel_main env channel_url = Finished st
     \<and> (rows st = [] \<or> (\<exists>info. rows st = [channel_row c info ''hello world'']))"
proof -
  have fa: "\<And>n. fetch_transcript (get_transcript env n) (Some a) = Inl TranscriptsDisabled"
    using ta by (simp add: fetch_transcript_raise)
  have fb: "\<And>n. fetch_transcript (get_transcript env n) (Some b)
                 = Inl (ValueError ''empty transcript'')"
    using tb by (simp add: fetch_transcript_return strip_def)
  have fc: "\<And>n. fetch_transcript (get_transcript env n) (Some c) = Inr ''hello world''"
    using tc by (simp add: fetch_transcript_return strip_hello_world)
  define s1 where "s1 = process_entry env ea channel_start"
  define s2 where "s2 = process_entry env eb s1"
  define s3 where "s3 = process_entry env ec s2"
  have "rows s1 = []"
    unfolding s1_def
    by (simp add: process_entry_no_transcript [OF ids(1) ids(4) fa] skip_video_def throttle_def
        channel_start_def)
  then have "rows s2 = []"
    unfolding s2_def
    by (simp add: process_entry_no_transcript [OF ids(2) ids(5) fb] skip_video_def throttle_def)
  with process_entry_rows [OF ids(3) ids(6) fc, of s2]
  have "rows s3 = [] \<or> (\<exists>info. rows s3 = [channel_row c info ''hello world''])"
    by (simp add: s3_def)
  moreover have "channel_main env channel_url = Finished s3"
    using url listing by (simp add: channel_main_def dict_get_default_def s1_def s2_def s3_def)
  ultimately show ?thesis by blast
qed

text \<open>
  Claim C4. \<open>fetch_transcript\<close> joins the texts of the caption segments, however many,
  with single spaces, and strips white space at both ends and nothing else. An
  exception of the transcript service, \<open>TranscriptsDisabled\<close> among them, passes through;
  a text that is blank (white space only) raises the distinct \<open>ValueError\<close> "empty
  transcript". So a channel of three uploads with captions disabled for the first, an
  empty caption list for the second and the single segment \<open>hello world\<close> for the third
  never yields a row for the first two; the only row it can yield is the third video's
  with the transcript \<open>hello world\<close>, and it yields exactly that row when the metadata
  of the third video is served.
\<close>

theorem fetch_transcript_outcomes:
  "(service vid = Inl e \<longrightarrow> fetch_transcript service vid = Inl e)
   \<and> (service vid = Inl TranscriptsDisabled \<longrightarrow>
         fetch_transcript service vid = Inl TranscriptsDisabled)
   \<and> join '' '' segs = spaced_segments segs
   \<and> (\<exists>pre post. s = pre @ strip s @ post \<and> list_all is_space pre \<and> list_all is_space post)
   \<and> (strip s \<noteq> [] \<longrightarrow> \<not> is_space (hd (strip s)) \<and> \<not> is_space (last (strip s)))
   \<and> (strip s = []) = list_all is_space s
   \<and> (service vid = Inr segs \<and> list_all is_space (spaced_segments segs) \<longrightarrow>
         fetch_transcript service vid = Inl (ValueError ''empty transcript''))
   \<and> (service vid = Inr segs \<and> \<not> list_all is_space (spaced_segments segs) \<longrightarrow>
         fetch_transcript service vid = Inr (strip (spaced_segments segs)))
   \<and> (service vid = Inr segs \<and> spaced_segments segs \<noteq> []
         \<and> \<not> is_space (hd (spaced_segments segs))
         \<and> \<not> is_space (last (spaced_segments segs)) \<longrightarrow>
         fetch_transcript service vid = Inr (spaced_segments segs))
   \<and> ValueError ''empty transcript'' \<noteq> TranscriptsDisabled
   \<and> (channel_url \<noteq> []
         \<and> extract_playlist env 0 (normalize_to_videos_page channel_url) = Inr (Val [ea, eb, ec])
         \<and> dict_get (id_key ea) = Some a \<and> dict_get (id_key eb) = Some b
         \<and> dict_get (id_key ec) = Some c \<and> a \<noteq> [] \<and> b \<noteq> [] \<and> c \<noteq> []
         \<and> (\<forall>n. get_transcript env n (Some a) = Inl TranscriptsDisabled)
         \<and> (\<forall>n. get_transcript env n (Some b) = Inr [])
         \<and> (\<forall>n. get_transcript env n (Some c) = Inr [''hello world''])
       \<longrightarrow> (\<exists>st. channel_main env channel_url = Finished st
               \<and> (rows st = [] \<or> (\<exists>info'. rows st = [channel_row c info' ''hello world'']))))
   \<and> (channel_url \<noteq> []
         \<and> extract_playlist env 0 (normalize_to_videos_page channel_url) = Inr (Val [ea, eb, ec])
         \<and> dict_get (id_key ea) = Some a \<and> dict_get (id_key eb) = Some b
         \<and> dict_get (id_key ec) = Some c \<and> a \<noteq> [] \<and> b \<noteq> [] \<and> c \<noteq> []
         \<and> (\<forall>n. get_transcript env n (Some a) = Inl TranscriptsDisabled)
         \<and> (\<forall>n. get_transcript env n (Some b) = Inr [])
         \<and> (\<forall>n. get_transcript env n (Some c) = Inr [''hello world''])
         \<and> (\<forall>n. extract_video env n (''https://www.youtube.com/watch?v='' @ c) = Inr info)
       \<longrightarrow> (\<exists>st. channel_main env channel_url = Finished st
               \<and> rows st = [channel_row c info ''hello world'']
               \<and> map video_id (rows st) = [Some c]
               \<and> map transcript (rows st) = [''hello world'']
               \<and> skipped_no_transcript st = 2))"
proof -
  have ret: "fetch_transcript service vid =
     (if list_all is_space (spaced_segments segs) then Inl (ValueError ''empty transcript'')
      else Inr (strip (spaced_segments segs)))" if "service vid = Inr segs"
    using that by (simp add: fetch_transcript_return join_spaced strip_blank)
  have c1: "service vid = Inl e \<longrightarrow> fetch_transcript service vid = Inl e"
    by (simp add: fetch_transcript_raise)
  have c2: "service vid = Inl TranscriptsDisabled \<longrightarrow>
         fetch_transcript service vid = Inl TranscriptsDisabled"
    by (simp add: fetch_transcript_raise)
  have c3: "join '' '' segs = spaced_segments segs"
    by (rule join_spaced)
  have c4: "\<exists>pre post. s = pre @ strip s @ post \<and> list_all is_space pre \<and> list_all is_space post"
    by (rule strip_parts)
  have c5: "strip s \<noteq> [] \<longrightarrow> \<not> is_space (hd (strip s)) \<and> \<not> is_space (last (strip s))"
    using strip_ends by blast
  have c6: "(strip s = []) = list_all is_space s"
    by (rule strip_blank)
  have c7: "service vid = Inr segs \<and> list_all is_space (spaced_segments segs) \<longrightarrow>
         fetch_transcript service vid = Inl (ValueError ''empty transcript'')"
    by (simp add: ret)
  have c8: "service vid = Inr segs \<and> \<not> list_all is_space (spaced_segments segs) \<longrightarrow>
         fetch_transcript service vid = Inr (strip (spaced_segments segs))"
    by (simp add: ret)
  have c9: "service vid = Inr segs \<and> spaced_segments segs \<noteq> []
         \<and> \<not> is_space (hd (spaced_segments segs))
         \<and> \<not> is_space (last (spaced_segments segs)) \<longrightarrow>
         fetch_transcript service vid = Inr (spaced_segments segs)"
    by (simp add: fetch_transcript_return join_spaced strip_id)
  have c10: "ValueError ''empty transcript'' \<noteq> TranscriptsDisabled"
    by simp
  have c11: "channel_url \<noteq> []
         \<and> extract_playlist env 0 (normalize_to_videos_page channel_url) = Inr (Val [ea, eb, ec])
         \<and> dict_get (id_key ea) = Some a \<and> dict_get (id_key eb) = Some b
         \<and> dict_get (id_key ec) = Some c \<and> a \<noteq> [] \<and> b \<noteq> [] \<and> c \<noteq> []
         \<and> (\<forall>n. get_transcript env n (Some a) = Inl TranscriptsDisabled)
         \<and> (\<forall>n. get_transcript env n (Some b) = Inr [])
         \<and> (\<forall>n. get_transcript env n (Some c) = Inr [''hello world''])
       \<longrightarrow> (\<exists>st. channel_main env channel_url = Finished st
               \<and> (rows st = [] \<or> (\<exists>info'. rows st = [channel_row c info' ''hello world''])))"
  proof
    assume h: "channel_url \<noteq> []
         \<and> extract_playlist env 0 (normalize_to_videos_page channel_url) = Inr (Val [ea, eb, ec])
         \<and> dict_get (id_key ea) = Some a \<and> dict_get (id_key eb) = Some b
         \<and> dict_get (id_key ec) = Some c \<and> a \<noteq> [] \<and> b \<noteq> [] \<and> c \<noteq> []
         \<and> (\<forall>n. get_transcript env n (Some a) = Inl TranscriptsDisabled)
         \<and> (\<forall>n. get_transcript env n (Some b) = Inr [])
         \<and> (\<forall>n. get_transcript env n (Some c) = Inr [''hello world''])"
    then show "\<exists>st. channel_main env channel_url = Finished st
               \<and> (rows st = [] \<or> (\<exists>info'. rows st = [channel_row c info' ''hello world'']))"
      by (intro channel_scenario_rows [of channel_url env ea eb ec a b c]) simp_all
  qed
  have c12: "channel_url \<noteq> []
         \<and> extract_playlist env 0 (normalize_to_videos_page channel_url) = Inr (Val [ea, eb, ec])
         \<and> dict_get (id_key ea) = Some a \<and> dict_get (id_key eb) = Some b
         \<and> dict_get (id_key ec) = Some c \<and> a \<noteq> [] \<and> b \<noteq> [] \<and> c \<noteq> []
         \<and> (\<forall>n. get_transcript env n (Some a) = Inl TranscriptsDisabled)
         \<and> (\<forall>n. get_transcript env n (Some b) = Inr [])
         \<and> (\<forall>n. get_transcript env n (Some c) = Inr [''hello world''])
         \<and> (\<forall>n. extract_video env n (''https://www.youtube.com/watch?v='' @ c) = Inr info)
       \<longrightarrow> (\<exists>st. channel_main env channel_url = Finished st
               \<and> rows st = [channel_row c info ''hello world'']
               \<and> map video_id (rows st) = [Some c]
               \<and> map transcript (rows st) = [''hello world'']
               \<and> skipped_no_transcript st = 2)"
  proof
    assume h: "channel_url \<noteq> []
         \<and> extract_playlist env 0 (normalize_to_videos_page channel_url) = Inr (Val [ea, eb, ec])
         \<and> dict_get (id_key ea) = Some a \<and> dict_get (id_key eb) = Some b
         \<and> dict_get (id_key ec) = Some c \<and> a \<noteq> [] \<and> b \<noteq> [] \<and> c \<noteq> []
         \<and> (\<forall>n. get_transcript env n (Some a) = Inl TranscriptsDisabled)
         \<and> (\<forall>n. get_transcript env n (Some b) = Inr [])
         \<and> (\<forall>n. get_transcript env n (Some c) = Inr [''hello world''])
         \<and> (\<forall>n. extract_video env n (''https://www.youtube.com/watch?v='' @ c) = Inr info)"
    then have "channel_main env channel_url =
       Finished (channel_start
         \<lparr>transcript_calls := 3, video_calls := 1, sleeps := [Throttle, Throttle, Throttle],
          rows := [channel_row c info ''hello world''], processed := 1,
          skipped_no_transcript := 2\<rparr>)"
      by (intro channel_scenario [of channel_url env ea eb ec a b c info]) simp_all
    then show "\<exists>st. channel_main env channel_url = Finished st
               \<and> rows st = [channel_row c info ''hello world'']
               \<and> map video_id (rows st) = [Some c]
               \<and> map transcript (rows st) = [''hello world'']
               \<and> skipped_no_transcript st = 2"
      by (simp add: channel_row_def)
  qed
  from c1 c2 c3 c4 c5 c6 c7 c8 c9 c10 c11 c12 show ?thesis
    by (intro conjI)
qed

theorem fetch_transcript_outcomes_witness:
  "get_transcript scenario_env 0 (Some ''A'') = Inl TranscriptsDisabled
   \<and> fetch_transcript (get_transcript scenario_env 0) (Some ''A'') = Inl TranscriptsDisabled
   \<and> get_transcript scenario_env 1 (Some ''B'') = Inr []
   \<and> fetch_transcript (get_transcript scenario_env 1) (Some ''B'')
       = Inl (ValueError ''empty transcript'')
   \<and> fetch_transcript (get_transcript scenario_env 2) (Some ''C'') = Inr ''hello world''
   \<and> fetch_transcript (\<lambda>v. Inr [''  so '', ''it goes '']) (Some ''D'') = Inr ''so  it goes''
   \<and> fetch_transcript (\<lambda>v. Inr [''one'', ''two'', ''three'', ''four'', ''five'']) (Some ''E'')
       = Inr ''one two three four five''
   \<and> fetch_transcript (\<lambda>v. Inr [[CHR 0x09, CHR 0x0A, CHR 0x0B], [CHR 0x0C, CHR 0x0D, CHR 0x1C],
          [CHR 0x1D, CHR 0x1E, CHR 0x1F], [CHR 0x85, CHR 0xA0]]) (Some ''F'')
       = Inl (ValueError ''empty transcript'')
   \<and> filter is_space (map char_of [0..<256::nat])
       = map char_of [9, 10, 11, 12, 13, 28, 29, 30, 31, 32, 133, 160 :: nat]
   \<and> (\<exists>st. channel_main scenario_env CHANNEL_URL = Finished st
         \<and> rows st =
             [\<lparr>video_id = Some ''C'', views = 1234, likes = 0, comments = 0,
               title = Some ''A talk'', published_at = Some ''20240101'',
               transcript = ''hello world''\<rparr>])"
proof -
  note t = fetch_transcript_outcomes
  note t_disabled = t [THEN conjunct2, THEN conjunct1, rule_format]
  note t_blank = t [THEN conjunct2, THEN conjunct2, THEN conjunct2, THEN conjunct2,
      THEN conjunct2, THEN conjunct2, THEN conjunct1, rule_format]
  note t_stripped = t [THEN conjunct2, THEN conjunct2, THEN conjunct2, THEN conjunct2,
      THEN conjunct2, THEN conjunct2, THEN conjunct2, THEN conjunct1, rule_format]
  note t_plain = t [THEN conjunct2, THEN conjunct2, THEN conjunct2, THEN conjunct2,
      THEN conjunct2, THEN conjunct2, THEN conjunct2, THEN conjunct2, THEN conjunct1,
      rule_format]
  note t_scenario = t [THEN conjunct2, THEN conjunct2, THEN conjunct2, THEN conjunct2,
      THEN conjunct2, THEN conjunct2, THEN conjunct2, THEN conjunct2, THEN conjunct2,
      THEN conjunct2, THEN conjunct2, rule_format]
  have A: "get_transcript scenario_env 0 (Some ''A'') = Inl TranscriptsDisabled"
    by (simp add: scenario_env_def)
  have B: "get_transcript scenario_env 1 (Some ''B'') = Inr []
      \<and> list_all is_space (spaced_segments [])"
    by (simp add: scenario_env_def spaced_segments_def)
  have C: "get_transcript scenario_env 2 (Some ''C'') = Inr [''hello world'']
      \<and> spaced_segments [''hello world''] \<noteq> []
      \<and> \<not> is_space (hd (spaced_segments [''hello world'']))
      \<and> \<not> is_space (last (spaced_segments [''hello world'']))"
    by (simp add: scenario_env_def is_space_def spaced_segments_def)
  have D: "(\<lambda>v::string option. Inr [''  so '', ''it goes ''] :: exn + string list) (Some ''D'')
        = Inr [''  so '', ''it goes '']
      \<and> \<not> list_all is_space (spaced_segments [''  so '', ''it goes ''])"
    by (simp add: spaced_segments_def is_space_def)
  have E: "(\<lambda>v::string option. Inr [''one'', ''two'', ''three'', ''four'', ''five'']
          :: exn + string list) (Some ''E'')
        = Inr [''one'', ''two'', ''three'', ''four'', ''five'']
      \<and> spaced_segments [''one'', ''two'', ''three'', ''four'', ''five''] \<noteq> []
      \<and> \<not> is_space (hd (spaced_segments [''one'', ''two'', ''three'', ''four'', ''five'']))
      \<and> \<not> is_space (last (spaced_segments [''one'', ''two'', ''three'', ''four'', ''five'']))"
    by (simp add: spaced_segments_def is_space_def)
  have F: "(\<lambda>v::string option. Inr [[CHR 0x09, CHR 0x0A, CHR 0x0B], [CHR 0x0C, CHR 0x0D, CHR 0x1C],
          [CHR 0x1D, CHR 0x1E, CHR 0x1F], [CHR 0x85, CHR 0xA0]] :: exn + string list) (Some ''F'')
        = Inr [[CHR 0x09, CHR 0x0A, CHR 0x0B], [CHR 0x0C, CHR 0x0D, CHR 0x1C],
          [CHR 0x1D, CHR 0x1E, CHR 0x1F], [CHR 0x85, CHR 0xA0]]
      \<and> list_all is_space (spaced_segments [[CHR 0x09, CHR 0x0A, CHR 0x0B],
          [CHR 0x0C, CHR 0x0D, CHR 0x1C], [CHR 0x1D, CHR 0x1E, CHR 0x1F], [CHR 0x85, CHR 0xA0]])"
    by (simp add: spaced_segments_def is_space_def)
  have members: "filter is_space (map char_of [0..<256::nat])
       = map char_of [9, 10, 11, 12, 13, 28, 29, 30, 31, 32, 133, 160 :: nat]"
    by code_simp
  have scen: "CHANNEL_URL \<noteq> []
         \<and> extract_playlist scenario_env 0 (normalize_to_videos_page CHANNEL_URL)
              = Inr (Val [entry_with_id ''A'', entry_with_id ''B'', entry_with_id ''C''])
         \<and> dict_get (id_key (entry_with_id ''A'')) = Some ''A''
         \<and> dict_get (id_key (entry_with_id ''B'')) = Some ''B''
         \<and> dict_get (id_key (entry_with_id ''C'')) = Some ''C''
         \<and> ''A'' \<noteq> [] \<and> ''B'' \<noteq> [] \<and> ''C'' \<noteq> []
         \<and> (\<forall>n. get_transcript scenario_env n (Some ''A'') = Inl TranscriptsDisabled)
         \<and> (\<forall>n. get_transcript scenario_env n (Some ''B'') = Inr [])
         \<and> (\<forall>n. get_transcript scenario_env n (Some ''C'') = Inr [''hello world''])
         \<and> (\<forall>n. extract_video scenario_env n (''https://www.youtube.com/watch?v='' @ ''C'')
                = Inr example_info)"
    by (simp add: scenario_env_def CHANNEL_URL_def entry_with_id_def dict_get_def)
  have 1: "fetch_transcript (get_transcript scenario_env 0) (Some ''A'') = Inl TranscriptsDisabled"
    by (rule t_disabled [where service = "get_transcript scenario_env 0" and vid = "Some ''A''",
        OF A])
  have 2: "fetch_transcript (get_transcript scenario_env 1) (Some ''B'')
       = Inl (ValueError ''empty transcript'')"
    by (rule t_blank [where service = "get_transcript scenario_env 1" and vid = "Some ''B''",
        OF B])
  have 3: "fetch_transcript (get_transcript scenario_env 2) (Some ''C'') = Inr ''hello world''"
    using t_plain [where service = "get_transcript scenario_env 2" and vid = "Some ''C''",
        OF C] by (simp add: spaced_segments_def)
  have 4: "fetch_transcript (\<lambda>v. Inr [''  so '', ''it goes '']) (Some ''D'') = Inr ''so  it goes''"
    using t_stripped [where service = "\<lambda>v::string option. Inr [''  so '', ''it goes '']"
        and vid = "Some ''D''", OF D]
    by (simp add: spaced_segments_def strip_def is_space_def)
  have 5: "fetch_transcript (\<lambda>v. Inr [''one'', ''two'', ''three'', ''four'', ''five''])
        (Some ''E'') = Inr ''one two three four five''"
    using t_plain [where service
          = "\<lambda>v::string option. Inr [''one'', ''two'', ''three'', ''four'', ''five'']"
        and vid = "Some ''E''", OF E]
    by (simp add: spaced_segments_def)
  have 6: "fetch_transcript (\<lambda>v. Inr [[CHR 0x09, CHR 0x0A, CHR 0x0B], [CHR 0x0C, CHR 0x0D, CHR 0x1C],
          [CHR 0x1D, CHR 0x1E, CHR 0x1F], [CHR 0x85, CHR 0xA0]]) (Some ''F'')
       = Inl (ValueError ''empty transcript'')"
    by (rule t_blank [where service = "\<lambda>v::string option. Inr [[CHR 0x09, CHR 0x0A, CHR 0x0B],
          [CHR 0x0C, CHR 0x0D, CHR 0x1C], [CHR 0x1D, CHR 0x1E, CHR 0x1F], [CHR 0x85, CHR 0xA0]]"
        and vid = "Some ''F''", OF F])
  from t_scenario [OF scen]
  have 7: "\<exists>st. channel_main scenario_env CHANNEL_URL = Finished st
         \<and> rows st = [channel_row ''C'' example_info ''hello world'']"
    by (elim exE conjE) (intro exI conjI)
  have row: "channel_row ''C'' example_info ''hello world'' =
      \<lparr>video_id = Some ''C'', views = 1234, likes = 0, comments = 0,
        title = Some ''A talk'', published_at = Some ''20240101'',
        transcript = ''hello world''\<rparr>"
    by (simp add: channel_row_def example_info_def dict_get_default_def or_int_def or_str_def)
  from A B 1 2 3 4 5 6 7 members show ?thesis
    by (simp add: row)
qed

section \<open>Properties of the stratified sampler\<close>

lemma update_fresh: "k \<notin> fst ` set al \<Longrightarrow> AList.update k v al = al @ [(k, v)]"
  by (induction al) auto

lemma fetch_transcript_nonempty: "fetch_transcript service v = Inr t \<Longrightarrow> t \<noteq> []"
  by (auto simp: fetch_transcript_def Let_def split: sum.splits if_splits)

text \<open>One step of the loop over the entries, with its three outcomes.\<close>

lemma scan_entries_Cons:
  "scan_entries env lo hi needed (e # es) st =
     (if dict_get (id_key e) \<in> fst ` set (collected st)
         \<or> \<not> (lo \<le> entry_views e \<and> below (entry_views e) hi)
      then scan_entries env lo hi needed es st
      else case fetch_transcript (get_transcript env (transcript_calls st)) (dict_get (id_key e)) of
             Inl ex \<Rightarrow>
               scan_entries env lo hi needed es (st\<lparr>transcript_calls := transcript_calls st + 1\<rparr>)
           | Inr t \<Rightarrow>
               (let st2 = st\<lparr>transcript_calls := transcript_calls st + 1,
                             collected := collected st @ [(dict_get (id_key e), sampler_record e t)]\<rparr>
                in if needed \<le> int (length (collected st2)) then st2
                   else scan_entries env lo hi needed es st2))"
  by (auto simp: Let_def update_fresh split: sum.splits exn.splits)

lemma collected_ok_snoc:
  assumes "collected_ok lo hi c" and "k \<notin> fst ` set c" and "t \<noteq> []"
    and "lo \<le> entry_views e" and "below (entry_views e) hi" and "k = dict_get (id_key e)"
  shows "collected_ok lo hi (c @ [(k, sampler_record e t)])"
  using assms by (simp add: collected_ok_def sampler_record_def)

lemma scan_entries_ok:
  "collected_ok lo hi (collected st) \<Longrightarrow>
   collected_ok lo hi (collected (scan_entries env lo hi needed es st))"
proof (induction es arbitrary: st)
  case Nil
  then show ?case by simp
next
  case (Cons e es)
  let ?k = "dict_get (id_key e)"
  show ?case
  proof (cases "?k \<in> fst ` set (collected st) \<or> \<not> (lo \<le> entry_views e \<and> below (entry_views e) hi)")
    case True
    with Cons show ?thesis by (simp add: scan_entries_Cons del: scan_entries.simps)
  next
    case False
    show ?thesis
    proof (cases "fetch_transcript (get_transcript env (transcript_calls st)) ?k")
      case (Inl ex)
      with False Cons.prems show ?thesis
        by (simp add: scan_entries_Cons Cons.IH del: scan_entries.simps)
    next
      case (Inr t)
      let ?st2 = "st\<lparr>transcript_calls := transcript_calls st + 1,
                     collected := collected st @ [(?k, sampler_record e t)]\<rparr>"
      from Inr have "t \<noteq> []" by (rule fetch_transcript_nonempty)
      with False Cons.prems have ok: "collected_ok lo hi (collected ?st2)"
        by (simp add: collected_ok_snoc)
      from Cons.IH [OF ok] ok False Inr show ?thesis
        by (simp add: scan_entries_Cons Let_def del: scan_entries.simps)
    qed
  qed
qed

lemma scan_entries_length:
  "int (length (collected st)) < needed \<Longrightarrow>
   int (length (collected (scan_entries env lo hi needed es st))) \<le> needed"
proof (induction es arbitrary: st)
  case Nil
  then show ?case by simp
next
  case (Cons e es)
  let ?k = "dict_get (id_key e)"
  show ?case
  proof (cases "?k \<in> fst ` set (collected st) \<or> \<not> (lo \<le> entry_views e \<and> below (entry_views e) hi)")
    case True
    with Cons show ?thesis by (simp add: scan_entries_Cons del: scan_entries.simps)
  next
    case False
    show ?thesis
    proof (cases "fetch_transcript (get_transcript env (transcript_calls st)) ?k")
      case (Inl ex)
      with False Cons.prems show ?thesis
        by (simp add: scan_entries_Cons Cons.IH del: scan_entries.simps)
    next
      case (Inr t)
      let ?st2 = "st\<lparr>transcript_calls := transcript_calls st + 1,
                     collected := collected st @ [(?k, sampler_record e t)]\<rparr>"
      show ?thesis
      proof (cases "needed \<le> int (length (collected ?st2))")
        case True
        with Cons.prems have "int (length (collected ?st2)) = needed" by simp
        with False Inr True show ?thesis
          by (simp add: scan_entries_Cons Let_def del: scan_entries.simps)
      next
        case stay: False
        then have "int (length (collected ?st2)) < needed" by simp
        from Cons.IH [OF this] False Inr stay show ?thesis
          by (simp add: scan_entries_Cons Let_def del: scan_entries.simps)
      qed
    qed
  qed
qed

lemma scan_entries_stop:
  "int (length (collected st)) < needed \<Longrightarrow>
   needed \<le> int (length (collected (scan_entries env lo hi needed es st))) \<Longrightarrow>
   scan_entries env lo hi needed (es @ rest) st = scan_entries env lo hi needed es st"
proof (induction es arbitrary: st)
  case Nil
  then show ?case by simp
next
  case (Cons e es)
  let ?k = "dict_get (id_key e)"
  show ?case
  proof (cases "?k \<in> fst ` set (collected st) \<or> \<not> (lo \<le> entry_views e \<and> below (entry_views e) hi)")
    case True
    with Cons.prems have "needed \<le> int (length (collected (scan_entries env lo hi needed es st)))"
      by (simp add: scan_entries_Cons del: scan_entries.simps)
    from Cons.IH [OF Cons.prems(1) this] True show ?thesis
      by (simp add: scan_entries_Cons del: scan_entries.simps)
  next
    case False
    show ?thesis
    proof (cases "fetch_transcript (get_transcript env (transcript_calls st)) ?k")
      case (Inl ex)
      let ?st1 = "st\<lparr>transcript_calls := transcript_calls st + 1\<rparr>"
      from Cons.prems have lt: "int (length (collected ?st1)) < needed" by simp
      from Cons.prems(2) False Inl
      have "needed \<le> int (length (collected (scan_entries env lo hi needed es ?st1)))"
        by (simp add: scan_entries_Cons del: scan_entries.simps)
      from Cons.IH [OF lt this] False Inl show ?thesis
        by (simp add: scan_entries_Cons del: scan_entries.simps)
    next
      case (Inr t)
      let ?st2 = "st\<lparr>transcript_calls := transcript_calls st + 1,
                     collected := collected st @ [(?k, sampler_record e t)]\<rparr>"
      show ?thesis
      proof (cases "needed \<le> int (length (collected ?st2))")
        case True
        with False Inr show ?thesis
          by (simp add: scan_entries_Cons Let_def del: scan_entries.simps)
      next
        case stay: False
        then have lt: "int (length (collected ?st2)) < needed" by simp
        from Cons.prems(2) False Inr stay
        have "needed \<le> int (length (collected (scan_entries env lo hi needed es ?st2)))"
          by (simp add: scan_entries_Cons Let_def del: scan_entries.simps)
        from Cons.IH [OF lt this] False Inr stay show ?thesis
          by (simp add: scan_entries_Cons Let_def del: scan_entries.simps)
      qed
    qed
  qed
qed

lemma search_loop_ok:
  "search_loop fuel env lo hi needed st = Some (Inr st') \<Longrightarrow>
   collected_ok lo hi (collected st) \<Longrightarrow> int (length (collected st)) \<le> needed \<Longrightarrow>
   collected_ok lo hi (collected st') \<and> int (length (collected st')) = needed"
proof (induction fuel arbitrary: st)
  case 0
  then show ?case
    by (simp add: search_loop.simps [of 0] split: if_splits)
next
  case (Suc fuel)
  show ?case
  proof (cases "int (length (collected st)) < needed")
    case False
    with Suc.prems show ?thesis
      by (simp add: search_loop.simps [of "Suc fuel"])
  next
    case True
    define q where "q = COMMON_QUERIES ! (choice env (choice_calls st) mod length COMMON_QUERIES)"
    define st1 where "st1 = st\<lparr>choice_calls := choice_calls st + 1,
                                 playlist_calls := playlist_calls st + 1\<rparr>"
    have c1: "collected st1 = collected st"
      by (simp add: st1_def)
    show ?thesis
    proof (cases "extract_playlist env (playlist_calls st) (''ytsearch50:'' @ q)")
      case (Inl ex)
      show ?thesis
      proof (cases ex)
        case (DownloadError msg)
        define st2 where "st2 = st1\<lparr>sleeps := sleeps st1 @
            [if py_in ''rate-limited'' (lower msg) then Seconds 60 else Seconds 10]\<rparr>"
        from Suc.prems(1) True Inl DownloadError
        have "search_loop fuel env lo hi needed st2 = Some (Inr st')"
          by (simp add: search_loop.simps [of "Suc fuel"] Let_def q_def st1_def st2_def)
        moreover have "collected st2 = collected st"
          by (simp add: st2_def c1)
        ultimately show ?thesis
          using Suc.IH [of st2] Suc.prems(2,3) by simp
      qed (use Suc.prems(1) True Inl in
          \<open>simp_all add: search_loop.simps [of "Suc fuel"] Let_def q_def\<close>)
    next
      case (Inr info)
      show ?thesis
      proof (cases "dict_get_default info []")
        case None
        with Suc.prems(1) True Inr show ?thesis
          by (simp add: search_loop.simps [of "Suc fuel"] Let_def q_def)
      next
        case (Some entries)
        define st2 where "st2 = scan_entries env lo hi needed entries st1"
        define st3 where "st3 = st2\<lparr>sleeps := sleeps st2 @ [Throttle]\<rparr>"
        from Suc.prems(1) True Inr Some
        have run: "search_loop fuel env lo hi needed st3 = Some (Inr st')"
          by (simp add: search_loop.simps [of "Suc fuel"] Let_def q_def st1_def st2_def st3_def)
        have "collected_ok lo hi (collected st2)"
          unfolding st2_def using Suc.prems(2) by (intro scan_entries_ok) (simp add: c1)
        moreover have "int (length (collected st2)) \<le> needed"
          unfolding st2_def using True by (intro scan_entries_length) (simp add: c1)
        moreover have "collected st3 = collected st2"
          by (simp add: st3_def)
        ultimately show ?thesis
          using Suc.IH [OF run] by simp
      qed
    qed
  qed
qed

lemma search_and_filter_ok:
  assumes "0 \<le> needed"
    and "search_and_filter fuel env lo hi needed st = Some (Inr (recs, st'))"
  shows "int (length recs) = needed \<and> distinct (map video_id recs)
       \<and> list_all (\<lambda>r. transcript r \<noteq> [] \<and> lo \<le> views r \<and> below (views r) hi) recs"
proof -
  from assms(2) obtain s where run: "search_loop fuel env lo hi needed (st\<lparr>collected := []\<rparr>)
      = Some (Inr s)" and recs: "recs = map snd (collected s)"
    by (auto simp: search_and_filter_def split: option.splits sum.splits)
  from search_loop_ok [OF run] assms(1)
  have ok: "collected_ok lo hi (collected s)" and len: "int (length (collected s)) = needed"
    by (simp_all add: collected_ok_def)
  from ok have keys: "map video_id (map snd (collected s)) = map fst (collected s)"
    by (auto simp: collected_ok_def list_all_iff)
  from ok have "distinct (map video_id recs)"
    unfolding recs keys by (simp add: collected_ok_def)
  moreover from ok
  have "list_all (\<lambda>r. transcript r \<noteq> [] \<and> lo \<le> views r \<and> below (views r) hi) recs"
    unfolding recs by (auto simp: collected_ok_def list_all_iff)
  ultimately show ?thesis
    using len recs by simp
qed

lemma scan_entries_reject:
  "\<not> (lo \<le> entry_views e \<and> below (entry_views e) hi) \<Longrightarrow>
   scan_entries env lo hi needed (e # es) st = scan_entries env lo hi needed es st"
  by (simp add: scan_entries_Cons del: scan_entries.simps)

lemma scan_entries_single:
  assumes "collected (scan_entries env lo hi needed [e] st) \<noteq> collected st"
  shows "lo \<le> entry_views e \<and> below (entry_views e) hi
   \<and> (\<exists>t. t \<noteq> [] \<and> collected (scan_entries env lo hi needed [e] st)
             = collected st @ [(dict_get (id_key e), sampler_record e t)])"
proof -
  let ?k = "dict_get (id_key e)"
  have range: "\<not> (?k \<in> fst ` set (collected st)
      \<or> \<not> (lo \<le> entry_views e \<and> below (entry_views e) hi))"
  proof
    assume "?k \<in> fst ` set (collected st)
      \<or> \<not> (lo \<le> entry_views e \<and> below (entry_views e) hi)"
    then have "scan_entries env lo hi needed [e] st = st"
      by (simp add: scan_entries_Cons del: scan_entries.simps(2))
    with assms show False by simp
  qed
  show ?thesis
  proof (cases "fetch_transcript (get_transcript env (transcript_calls st)) ?k")
    case (Inl ex)
    with range assms show ?thesis
      by (simp add: scan_entries_Cons del: scan_entries.simps(2))
  next
    case (Inr t)
    from Inr have "t \<noteq> []" by (rule fetch_transcript_nonempty)
    moreover from range Inr
    have "collected (scan_entries env lo hi needed [e] st)
        = collected st @ [(?k, sampler_record e t)]"
      by (simp add: scan_entries_Cons Let_def del: scan_entries.simps(2))
    ultimately show ?thesis
      using range by blast
  qed
qed


lemma tier_of_ranges:
  "1000000 \<le> v \<Longrightarrow> tier_of v = Some ''viral''"
  "100000 \<le> v \<Longrightarrow> v < 1000000 \<Longrightarrow> tier_of v = Some ''popular''"
  "10000 \<le> v \<Longrightarrow> v < 100000 \<Longrightarrow> tier_of v = Some ''mid''"
  "0 \<le> v \<Longrightarrow> v < 10000 \<Longrightarrow> tier_of v = Some ''niche''"
  by (simp_all add: tier_of_def TIERS_def below_def)

lemma sampler_main_tiers:
  assumes "sampler_main fuel env = Some (Inr all_videos)"
  obtains r1 r2 r3 r4 s1 s2 s3 s4 where
    "search_and_filter fuel env 1000000 Unbounded TARGET_PER_TIER sampler_start
       = Some (Inr (r1, s1))"
    "search_and_filter fuel env 100000 (Finite 1000000) TARGET_PER_TIER s1 = Some (Inr (r2, s2))"
    "search_and_filter fuel env 10000 (Finite 100000) TARGET_PER_TIER s2 = Some (Inr (r3, s3))"
    "search_and_filter fuel env 0 (Finite 10000) TARGET_PER_TIER s3 = Some (Inr (r4, s4))"
    "all_videos = r1 @ r2 @ r3 @ r4"
  using assms
  by (auto simp: sampler_main_def TIERS_def split: option.splits sum.splits prod.splits)

lemma distinct_map_pair:
  "distinct (map f xs) \<Longrightarrow> distinct (map (\<lambda>x. (f x, g x)) xs)"
  by (induction xs) auto

lemma tier_rows:
  assumes "search_and_filter fuel env lo hi TARGET_PER_TIER st = Some (Inr (recs, st'))"
    and "\<And>v. lo \<le> v \<Longrightarrow> below v hi \<Longrightarrow> tier_of v = Some name"
  shows "length recs = 50"
    and "distinct (map (\<lambda>r. (video_id r, tier_of (views r))) recs)"
    and "\<forall>r \<in> set recs. transcript r \<noteq> [] \<and> tier_of (views r) = Some name"
proof -
  have "0 \<le> TARGET_PER_TIER"
    by (simp add: TARGET_PER_TIER_def)
  from search_and_filter_ok [OF this assms(1)]
  have len: "int (length recs) = TARGET_PER_TIER" and d: "distinct (map video_id recs)"
    and ok: "list_all (\<lambda>r. transcript r \<noteq> [] \<and> lo \<le> views r \<and> below (views r) hi) recs"
    by simp_all
  from len show "length recs = 50"
    by (simp add: TARGET_PER_TIER_def)
  from d show "distinct (map (\<lambda>r. (video_id r, tier_of (views r))) recs)"
    by (rule distinct_map_pair)
  from ok assms(2) show "\<forall>r \<in> set recs. transcript r \<noteq> [] \<and> tier_of (views r) = Some name"
    by (auto simp: list_all_iff)
qed

lemma sampler_main_rows:
  assumes "sampler_main fuel env = Some (Inr all_videos)"
  shows "length all_videos = 200"
    and "\<forall>r \<in> set all_videos. transcript r \<noteq> []"
    and "distinct (map (\<lambda>r. (video_id r, tier_of (views r))) all_videos)"
proof -
  from assms obtain r1 r2 r3 r4 s1 s2 s3 s4 where
    t1: "search_and_filter fuel env 1000000 Unbounded TARGET_PER_TIER sampler_start
       = Some (Inr (r1, s1))" and
    t2: "search_and_filter fuel env 100000 (Finite 1000000) TARGET_PER_TIER s1
       = Some (Inr (r2, s2))" and
    t3: "search_and_filter fuel env 10000 (Finite 100000) TARGET_PER_TIER s2
       = Some (Inr (r3, s3))" and
    t4: "search_and_filter fuel env 0 (Finite 10000) TARGET_PER_TIER s3 = Some (Inr (r4, s4))" and
    all: "all_videos = r1 @ r2 @ r3 @ r4"
    by (rule sampler_main_tiers)
  note a1 = tier_rows [OF t1, of "''viral''"]
  note a2 = tier_rows [OF t2, of "''popular''"]
  note a3 = tier_rows [OF t3, of "''mid''"]
  note a4 = tier_rows [OF t4, of "''niche''"]
  have p1: "length r1 = 50"
    "distinct (map (\<lambda>r. (video_id r, tier_of (views r))) r1)"
    "\<forall>r \<in> set r1. transcript r \<noteq> [] \<and> tier_of (views r) = Some ''viral''"
    by (rule a1; simp add: tier_of_ranges below_def)+
  have p2: "length r2 = 50"
    "distinct (map (\<lambda>r. (video_id r, tier_of (views r))) r2)"
    "\<forall>r \<in> set r2. transcript r \<noteq> [] \<and> tier_of (views r) = Some ''popular''"
    by (rule a2; simp add: tier_of_ranges below_def)+
  have p3: "length r3 = 50"
    "distinct (map (\<lambda>r. (video_id r, tier_of (views r))) r3)"
    "\<forall>r \<in> set r3. transcript r \<noteq> [] \<and> tier_of (views r) = Some ''mid''"
    by (rule a3; simp add: tier_of_ranges below_def)+
  have p4: "length r4 = 50"
    "distinct (map (\<lambda>r. (video_id r, tier_of (views r))) r4)"
    "\<forall>r \<in> set r4. transcript r \<noteq> [] \<and> tier_of (views r) = Some ''niche''"
    by (rule a4; simp add: tier_of_ranges below_def)+
  from p1(1) p2(1) p3(1) p4(1) show "length all_videos = 200"
    by (simp add: all)
  from p1(3) p2(3) p3(3) p4(3) show "\<forall>r \<in> set all_videos. transcript r \<noteq> []"
    by (auto simp: all)
  from p1(2,3) p2(2,3) p3(2,3) p4(2,3)
  show "distinct (map (\<lambda>r. (video_id r, tier_of (views r))) all_videos)"
    unfolding all by (fastforce simp: distinct_append)
qed

lemma distinct_ids_if_stable:
  assumes d: "distinct (map (\<lambda>r. (video_id r, tier_of (views r))) rs)"
    and stable: "\<forall>r \<in> set rs. \<forall>r' \<in> set rs.
        video_id r = video_id r' \<longrightarrow> tier_of (views r) = tier_of (views r')"
  shows "distinct (map video_id rs)"
proof -
  from d have drs: "distinct rs"
    and inj: "inj_on (\<lambda>r. (video_id r, tier_of (views r))) (set rs)"
    by (simp_all add: distinct_map)
  have "inj_on video_id (set rs)"
  proof (rule inj_onI)
    fix r r'
    assume r: "r \<in> set rs" "r' \<in> set rs" and same: "video_id r = video_id r'"
    from stable r same have "tier_of (views r) = tier_of (views r')"
      by blast
    with same have "(\<lambda>r. (video_id r, tier_of (views r))) r
        = (\<lambda>r. (video_id r, tier_of (views r))) r'"
      by simp
    from inj_onD [OF inj this r] show "r = r'" .
  qed
  with drs show ?thesis
    by (simp add: distinct_map)
qed


text \<open>
  Claim C2. For \<open>needed \<ge> 0\<close>, a call of \<open>search_and_filter\<close> that returns, returns
  exactly \<open>needed\<close> records, with distinct ids, each with a non-empty transcript and a
  view count \<open>v\<close> such that \<open>min_views \<le> v < max_views\<close>. A candidate whose view count
  is the upper bound of the tier is passed over. Within one iteration the scan of the
  candidates stops as soon as the quota is reached: whatever candidates follow, the
  state (the number of transcript requests included) is the same.
\<close>

theorem search_and_filter_quota:
  "(0 \<le> needed \<and> search_and_filter fuel env lo hi needed st = Some (Inr (recs, st')) \<longrightarrow>
      int (length recs) = needed \<and> distinct (map video_id recs)
      \<and> (\<forall>r \<in> set recs. transcript r \<noteq> [] \<and> lo \<le> views r \<and> below (views r) hi))
   \<and> (hi = Finite (entry_views e) \<longrightarrow>
        scan_entries env lo hi needed (e # es) st = scan_entries env lo hi needed es st)
   \<and> (int (length (collected st)) < needed
        \<and> needed \<le> int (length (collected (scan_entries env lo hi needed es st))) \<longrightarrow>
        scan_entries env lo hi needed (es @ rest) st = scan_entries env lo hi needed es st)"
proof (intro conjI impI)
  assume run: "0 \<le> needed \<and> search_and_filter fuel env lo hi needed st = Some (Inr (recs, st'))"
  then have ok: "int (length recs) = needed \<and> distinct (map video_id recs)
       \<and> list_all (\<lambda>r. transcript r \<noteq> [] \<and> lo \<le> views r \<and> below (views r) hi) recs"
    by (intro search_and_filter_ok [of needed fuel env lo hi st recs st']) simp_all
  from ok show "int (length recs) = needed" by simp
  from ok show "distinct (map video_id recs)" by simp
  from ok show "\<forall>r \<in> set recs. transcript r \<noteq> [] \<and> lo \<le> views r \<and> below (views r) hi"
    by (simp add: list_all_iff)
next
  assume "hi = Finite (entry_views e)"
  then have "\<not> (lo \<le> entry_views e \<and> below (entry_views e) hi)"
    by (simp add: below_def)
  then show "scan_entries env lo hi needed (e # es) st = scan_entries env lo hi needed es st"
    by (rule scan_entries_reject)
next
  assume "int (length (collected st)) < needed
        \<and> needed \<le> int (length (collected (scan_entries env lo hi needed es st)))"
  then show "scan_entries env lo hi needed (es @ rest) st = scan_entries env lo hi needed es st"
    by (intro scan_entries_stop) simp_all
qed

theorem search_and_filter_quota_witness:
  "(0::int) \<le> 2
   \<and> search_and_filter 3 tier_env 10000 (Finite 100000) 2 sampler_start =
         Some (Inr ([sampler_record (candidate ''b'' (Val 50000)) ''some words'',
                     sampler_record (candidate ''f'' (Val 10000)) ''some words''],
           \<lparr>playlist_calls = 3, video_calls = 0, transcript_calls = 2, choice_calls = 3,
            sleeps = [Throttle, Seconds 60, Throttle],
            collected =
              [(Some ''b'', sampler_record (candidate ''b'' (Val 50000)) ''some words''),
               (Some ''f'', sampler_record (candidate ''f'' (Val 10000)) ''some words'')]\<rparr>))
   \<and> distinct (map video_id [sampler_record (candidate ''b'' (Val 50000)) ''some words'',
                     sampler_record (candidate ''f'' (Val 10000)) ''some words''])
   \<and> views (sampler_record (candidate ''b'' (Val 50000)) ''some words'') = 50000
   \<and> views (sampler_record (candidate ''f'' (Val 10000)) ''some words'') = 10000
   \<and> Finite 100000 = Finite (entry_views (candidate ''d'' (Val 100000)))
   \<and> scan_entries tier_env 10000 (Finite 100000) 2
        [candidate ''d'' (Val 100000), candidate ''e'' Missing] sampler_start
      = sampler_start
   \<and> int (length (collected sampler_start)) < 2
   \<and> length (collected (scan_entries tier_env 10000 (Finite 100000) 2
        [candidate ''b'' (Val 50000), candidate ''f'' (Val 10000)] sampler_start)) = 2
   \<and> scan_entries tier_env 10000 (Finite 100000) 2
        ([candidate ''b'' (Val 50000), candidate ''f'' (Val 10000)]
           @ [candidate ''g'' (Val 99999), candidate ''h'' (Val 20000)]) sampler_start
      = scan_entries tier_env 10000 (Finite 100000) 2
        [candidate ''b'' (Val 50000), candidate ''f'' (Val 10000)] sampler_start"
proof -
  note t = search_and_filter_quota
  note t_run = t [THEN conjunct1, rule_format]
  note t_bound = t [THEN conjunct2, THEN conjunct1, rule_format]
  note t_stop = t [THEN conjunct2, THEN conjunct2, rule_format]
  define b where "b = candidate ''b'' (Val 50000)"
  define f where "f = candidate ''f'' (Val 10000)"
  define d where "d = candidate ''d'' (Val 100000)"
  define e where "e = candidate ''e'' Missing"
  have run: "search_and_filter 3 tier_env 10000 (Finite 100000) 2 sampler_start =
         Some (Inr ([sampler_record b ''some words'', sampler_record f ''some words''],
           \<lparr>playlist_calls = 3, video_calls = 0, transcript_calls = 2, choice_calls = 3,
            sleeps = [Throttle, Seconds 60, Throttle],
            collected = [(Some ''b'', sampler_record b ''some words''),
                         (Some ''f'', sampler_record f ''some words'')]\<rparr>))"
    unfolding b_def f_def by code_simp
  have "(0::int) \<le> 2" by simp
  from t_run [OF conjI [OF this run]]
  have ids: "distinct (map video_id [sampler_record b ''some words'',
      sampler_record f ''some words''])"
    by blast
  have vb: "views (sampler_record b ''some words'') = 50000"
    and vf: "views (sampler_record f ''some words'') = 10000"
    and fd: "Finite 100000 = Finite (entry_views d)"
    unfolding b_def f_def d_def by code_simp+
  have s0: "scan_entries tier_env 10000 (Finite 100000) 2 [e] sampler_start = sampler_start"
    unfolding e_def by code_simp
  from t_bound [OF fd, of tier_env 10000 2 "[e]" sampler_start] s0
  have bound: "scan_entries tier_env 10000 (Finite 100000) 2 [d, e] sampler_start = sampler_start"
    by simp
  have lt: "int (length (collected sampler_start)) < 2"
    by (simp add: sampler_start_def)
  have len: "length (collected (scan_entries tier_env 10000 (Finite 100000) 2 [b, f]
      sampler_start)) = 2"
    unfolding b_def f_def by code_simp
  then have "int (length (collected sampler_start)) < 2
      \<and> 2 \<le> int (length (collected (scan_entries tier_env 10000 (Finite 100000) 2 [b, f]
           sampler_start)))"
    using lt by simp
  from t_stop [OF this]
  have stop: "scan_entries tier_env 10000 (Finite 100000) 2
        ([b, f] @ [candidate ''g'' (Val 99999), candidate ''h'' (Val 20000)]) sampler_start
      = scan_entries tier_env 10000 (Finite 100000) 2 [b, f] sampler_start" .
  from run ids vb vf fd bound lt len stop show ?thesis
    unfolding b_def f_def d_def e_def by simp
qed

text \<open>
  Claim C10. A candidate whose \<open>view_count\<close> is absent or \<open>None\<close> counts as having zero
  views: a tier with \<open>min_views > 0\<close> passes it over, and a tier that accepts it has zero
  in its range and stores the record with zero views. Of the configured tiers that is
  the lowest one.
\<close>

theorem missing_view_count_is_zero:
  "view_count e = Missing \<or> view_count e = Null \<longrightarrow>
     entry_views e = 0
     \<and> tier_of (entry_views e) = Some ''niche''
     \<and> (0 < lo \<longrightarrow>
          scan_entries env lo hi needed (e # es) st = scan_entries env lo hi needed es st)
     \<and> (collected (scan_entries env lo hi needed [e] st) \<noteq> collected st \<longrightarrow>
          lo \<le> 0 \<and> below 0 hi
          \<and> (\<exists>t. collected (scan_entries env lo hi needed [e] st)
                    = collected st @ [(dict_get (id_key e), sampler_record e t)]
                 \<and> views (sampler_record e t) = 0))"
proof (intro impI)
  assume "view_count e = Missing \<or> view_count e = Null"
  then have zero: "entry_views e = 0"
    by (auto simp: entry_views_def dict_get_def or_int_def)
  have "scan_entries env lo hi needed (e # es) st = scan_entries env lo hi needed es st"
    if "0 < lo"
    using that zero by (intro scan_entries_reject) simp
  moreover have "lo \<le> 0 \<and> below 0 hi
          \<and> (\<exists>t. collected (scan_entries env lo hi needed [e] st)
                    = collected st @ [(dict_get (id_key e), sampler_record e t)]
                 \<and> views (sampler_record e t) = 0)"
    if "collected (scan_entries env lo hi needed [e] st) \<noteq> collected st"
    using scan_entries_single [OF that] zero
    by (auto simp: sampler_record_def)
  moreover have "tier_of (entry_views e) = Some ''niche''"
    using zero by (simp add: tier_of_ranges)
  ultimately show "entry_views e = 0
     \<and> tier_of (entry_views e) = Some ''niche''
     \<and> (0 < lo \<longrightarrow>
          scan_entries env lo hi needed (e # es) st = scan_entries env lo hi needed es st)
     \<and> (collected (scan_entries env lo hi needed [e] st) \<noteq> collected st \<longrightarrow>
          lo \<le> 0 \<and> below 0 hi
          \<and> (\<exists>t. collected (scan_entries env lo hi needed [e] st)
                    = collected st @ [(dict_get (id_key e), sampler_record e t)]
                 \<and> views (sampler_record e t) = 0))"
    using zero by blast
qed

theorem missing_view_count_is_zero_witness:
  "view_count (candidate ''e'' Missing) = Missing
   \<and> entry_views (candidate ''e'' Missing) = 0
   \<and> entry_views (candidate ''e'' Null) = 0
   \<and> (0::int) < 10000
   \<and> scan_entries tier_env 10000 (Finite 100000) 2 [candidate ''e'' Missing] sampler_start
       = sampler_start
   \<and> collected (scan_entries tier_env 0 (Finite 10000) 2 [candidate ''e'' Missing] sampler_start)
       = [(Some ''e'', sampler_record (candidate ''e'' Missing) ''some words'')]
   \<and> views (sampler_record (candidate ''e'' Missing) ''some words'') = 0"
proof -
  define e where "e = candidate ''e'' Missing"
  have m: "view_count e = Missing \<or> view_count e = Null"
    by (simp add: e_def candidate_def)
  have n: "view_count (candidate ''e'' Null) = Missing \<or> view_count (candidate ''e'' Null) = Null"
    by (simp add: candidate_def)
  note t = missing_view_count_is_zero [rule_format, OF m]
  note t_zero = t [THEN conjunct1]
  note t_reject = t [THEN conjunct2, THEN conjunct2, THEN conjunct1, rule_format]
  have z2: "entry_views (candidate ''e'' Null) = 0"
    using missing_view_count_is_zero [rule_format, OF n] by blast
  have pos: "(0::int) < 10000" by simp
  from t_reject [OF pos, of tier_env "Finite 100000" 2 "[]" sampler_start]
  have rej: "scan_entries tier_env 10000 (Finite 100000) 2 [e] sampler_start = sampler_start"
    by simp
  have acc: "collected (scan_entries tier_env 0 (Finite 10000) 2 [e] sampler_start)
       = [(Some ''e'', sampler_record e ''some words'')]"
    unfolding e_def by code_simp
  have v: "views (sampler_record e ''some words'') = 0"
    using t_zero by (simp add: sampler_record_def)
  from m t_zero z2 rej acc v show ?thesis
    unfolding e_def by (simp add: candidate_def)
qed

section \<open>Properties of the output files\<close>

lemma scan_entries_playlist_calls:
  "playlist_calls (scan_entries env lo hi needed es st) = playlist_calls st"
proof (induction es arbitrary: st)
  case Nil
  show ?case by simp
next
  case (Cons e es)
  show ?case
    by (simp add: scan_entries_Cons Cons.IH Let_def del: scan_entries.simps(2)
        split: sum.splits)
qed

text \<open>
  When every transcript request is served with the same text and the candidates are new,
  distinct and inside the tier, the scan collects them in order up to the quota.
\<close>

lemma scan_entries_accept_all:
  assumes tr: "\<And>n v. fetch_transcript (get_transcript env n) v = Inr t"
  shows "distinct (map (\<lambda>e. dict_get (id_key e)) es) \<Longrightarrow>
     \<forall>e \<in> set es. dict_get (id_key e) \<notin> fst ` set (collected st)
        \<and> lo \<le> entry_views e \<and> below (entry_views e) hi \<Longrightarrow>
     int (length (collected st)) < needed \<Longrightarrow>
     collected (scan_entries env lo hi needed es st) =
       collected st @ map (\<lambda>e. (dict_get (id_key e), sampler_record e t))
                        (take (nat needed - length (collected st)) es)"
proof (induction es arbitrary: st)
  case Nil
  show ?case by simp
next
  case (Cons e es)
  let ?k = "dict_get (id_key e)"
  let ?st2 = "st\<lparr>transcript_calls := transcript_calls st + 1,
                 collected := collected st @ [(?k, sampler_record e t)]\<rparr>"
  from Cons.prems(2) have ok: "\<not> (?k \<in> fst ` set (collected st)
      \<or> \<not> (lo \<le> entry_views e \<and> below (entry_views e) hi))"
    by simp
  from Cons.prems(3) obtain m where m: "nat needed - length (collected st) = Suc m"
    by (cases "nat needed - length (collected st)") auto
  show ?case
  proof (cases "needed \<le> int (length (collected ?st2))")
    case True
    with m have "m = 0" by simp
    with ok True m show ?thesis
      by (simp add: scan_entries_Cons tr Let_def del: scan_entries.simps(2))
  next
    case False
    then have lt: "int (length (collected ?st2)) < needed" by simp
    from Cons.prems(1) have d: "distinct (map (\<lambda>e. dict_get (id_key e)) es)" by simp
    from Cons.prems(1,2)
    have fresh: "\<forall>e \<in> set es. dict_get (id_key e) \<notin> fst ` set (collected ?st2)
        \<and> lo \<le> entry_views e \<and> below (entry_views e) hi"
      by (auto simp: image_iff)
    from m have m': "nat needed - length (collected ?st2) = m" by simp
    from Cons.IH [OF d fresh lt] ok False m m' show ?thesis
      by (simp add: scan_entries_Cons tr Let_def del: scan_entries.simps(2))
  qed
qed

lemma search_world_transcript:
  "fetch_transcript (get_transcript (search_world ids) n) v = Inr ''some words''"
  by (simp add: fetch_transcript_def search_world_def strip_def is_space_def)

lemma entry_views_candidate: "entry_views (candidate v (Val x)) = x"
  by (simp add: entry_views_def candidate_def dict_get_def or_int_def)

lemma id_candidate: "dict_get (id_key (candidate v vc)) = Some v"
  by (simp add: candidate_def dict_get_def)

lemma search_loop_listing:
  assumes "int (length (collected st)) < needed"
    and "extract_playlist env (playlist_calls st)
           (''ytsearch50:'' @ COMMON_QUERIES ! (choice env (choice_calls st) mod length COMMON_QUERIES))
         = Inr (Val entries)"
    and "st2 = scan_entries env lo hi needed entries
           (st\<lparr>choice_calls := choice_calls st + 1, playlist_calls := playlist_calls st + 1\<rparr>)"
  shows "search_loop (Suc fuel) env lo hi needed st =
     search_loop fuel env lo hi needed (st2\<lparr>sleeps := sleeps st2 @ [Throttle]\<rparr>)"
  using assms
  by (subst search_loop.simps) (simp add: Let_def dict_get_default_def)

lemma search_loop_done:
  "\<not> int (length (collected st)) < needed \<Longrightarrow>
   search_loop fuel env lo hi needed st = Some (Inr st)"
  by (subst search_loop.simps) simp

text \<open>The records of the search with number \<open>n\<close> in such a world.\<close>

lemma search_world_tier:
  fixes ids st
  defines "n \<equiv> playlist_calls st"
  defines "recs \<equiv> map (\<lambda>v. sampler_record (candidate v (Val (views_at_search n))) ''some words'')
                       (ids n)"
  assumes d: "distinct (ids n)" and len: "length (ids n) = 50"
    and range: "lo \<le> views_at_search n" "below (views_at_search n) hi"
  shows "\<exists>st'. search_and_filter (Suc 0) (search_world ids) lo hi TARGET_PER_TIER st
            = Some (Inr (recs, st'))
          \<and> playlist_calls st' = Suc n"
proof -
  let ?env = "search_world ids"
  define st0 where "st0 = st\<lparr>collected := []\<rparr>"
  define q where "q = ''ytsearch50:'' @
      COMMON_QUERIES ! (choice ?env (choice_calls st0) mod length COMMON_QUERIES)"
  define st1 where "st1 = st0\<lparr>choice_calls := choice_calls st0 + 1,
                                playlist_calls := playlist_calls st0 + 1\<rparr>"
  define es where "es = map (\<lambda>v. candidate v (Val (views_at_search n))) (ids n)"
  define st2 where "st2 = scan_entries ?env lo hi TARGET_PER_TIER es st1"
  define st3 where "st3 = st2\<lparr>sleeps := sleeps st2 @ [Throttle]\<rparr>"
  have n0: "playlist_calls st0 = n"
    by (simp add: st0_def n_def)
  have listing: "extract_playlist ?env (playlist_calls st0) q = Inr (Val es)"
    by (simp add: search_world_def es_def n0)
  have c1: "collected st1 = []"
    by (simp add: st1_def st0_def)
  have keys: "map (\<lambda>e. dict_get (id_key e)) es = map Some (ids n)"
    by (simp add: es_def id_candidate comp_def)
  have "collected st2 = collected st1 @ map (\<lambda>e. (dict_get (id_key e), sampler_record e ''some words''))
        (take (nat TARGET_PER_TIER - length (collected st1)) es)"
    unfolding st2_def
  proof (rule scan_entries_accept_all)
    show "fetch_transcript (get_transcript ?env k) v = Inr ''some words''" for k v
      by (rule search_world_transcript)
    show "distinct (map (\<lambda>e. dict_get (id_key e)) es)"
      using d by (simp add: keys distinct_map)
    show "\<forall>e \<in> set es. dict_get (id_key e) \<notin> fst ` set (collected st1)
        \<and> lo \<le> entry_views e \<and> below (entry_views e) hi"
      using range by (auto simp: c1 es_def entry_views_candidate)
    show "int (length (collected st1)) < TARGET_PER_TIER"
      by (simp add: c1 TARGET_PER_TIER_def)
  qed
  with len have c2: "collected st2 = map (\<lambda>e. (dict_get (id_key e), sampler_record e ''some words'')) es"
    by (simp add: c1 TARGET_PER_TIER_def es_def)
  then have c3: "collected st3 = map (\<lambda>e. (dict_get (id_key e), sampler_record e ''some words'')) es"
    by (simp add: st3_def)
  with len have full: "\<not> int (length (collected st3)) < TARGET_PER_TIER"
    by (simp add: TARGET_PER_TIER_def es_def)
  have "int (length (collected st0)) < TARGET_PER_TIER"
    by (simp add: st0_def TARGET_PER_TIER_def)
  from search_loop_listing [OF this listing [unfolded q_def] st2_def [unfolded st1_def]]
  have "search_loop (Suc 0) ?env lo hi TARGET_PER_TIER st0
      = search_loop 0 ?env lo hi TARGET_PER_TIER st3"
    by (simp only: st3_def)
  also have "\<dots> = Some (Inr st3)"
    using full by (rule search_loop_done)
  finally have "search_and_filter (Suc 0) ?env lo hi TARGET_PER_TIER st
      = Some (Inr (map snd (collected st3), st3))"
    by (simp add: search_and_filter_def st0_def)
  moreover have "map snd (collected st3) = recs"
    by (simp add: c3 recs_def es_def comp_def)
  moreover have "playlist_calls st3 = Suc n"
    by (simp add: st3_def st2_def scan_entries_playlist_calls st1_def n0)
  ultimately show ?thesis by simp
qed

lemma search_world_main:
  assumes ids: "\<And>n. n < 4 \<Longrightarrow> distinct (ids n) \<and> length (ids n) = 50"
  shows "sampler_main (Suc 0) (search_world ids) =
     Some (Inr (search_rows ids 0 @ search_rows ids 1 @ search_rows ids 2 @ search_rows ids 3))"
proof -
  let ?env = "search_world ids"
  have p0: "playlist_calls sampler_start = 0"
    by (simp add: sampler_start_def)
  from search_world_tier [of ids sampler_start 1000000 Unbounded] ids [of 0]
  obtain s1 where t1: "search_and_filter (Suc 0) ?env 1000000 Unbounded TARGET_PER_TIER sampler_start
      = Some (Inr (search_rows ids 0, s1))" and p1: "playlist_calls s1 = 1"
    by (auto simp: p0 views_at_search_def below_def search_rows_def)
  from search_world_tier [of ids s1 100000 "Finite 1000000"] ids [of 1]
  obtain s2 where t2: "search_and_filter (Suc 0) ?env 100000 (Finite 1000000) TARGET_PER_TIER s1
      = Some (Inr (search_rows ids 1, s2))" and p2: "playlist_calls s2 = 2"
    by (auto simp: p1 views_at_search_def below_def search_rows_def)
  from search_world_tier [of ids s2 10000 "Finite 100000"] ids [of 2]
  obtain s3 where t3: "search_and_filter (Suc 0) ?env 10000 (Finite 100000) TARGET_PER_TIER s2
      = Some (Inr (search_rows ids 2, s3))" and p3: "playlist_calls s3 = 3"
    by (auto simp: p2 views_at_search_def below_def search_rows_def)
  from search_world_tier [of ids s3 0 "Finite 10000"] ids [of 3]
  obtain s4 where t4: "search_and_filter (Suc 0) ?env 0 (Finite 10000) TARGET_PER_TIER s3
      = Some (Inr (search_rows ids 3, s4))"
    by (auto simp: p3 views_at_search_def below_def search_rows_def)
  show ?thesis
    by (simp add: sampler_main_def TIERS_def t1 t2 t3 t4)
qed

lemma length_fifty_ids: "length fifty_ids = 50"
  by (simp add: fifty_ids_def)

lemma distinct_fifty_ids: "distinct fifty_ids"
proof -
  have "inj_on (\<lambda>i. ''vid'' @ [char_of (48 + i div 10), char_of (48 + i mod 10)]) {0..<50::nat}"
  proof (rule inj_onI)
    fix i j :: nat
    assume i: "i \<in> {0..<50}" and j: "j \<in> {0..<50}"
      and eq: "''vid'' @ [char_of (48 + i div 10), char_of (48 + i mod 10)]
             = ''vid'' @ [char_of (48 + j div 10), char_of (48 + j mod 10)]"
    from eq have "(of_char (char_of (48 + i div 10) :: char) :: nat) = of_char (char_of (48 + j div 10) :: char)"
      and "(of_char (char_of (48 + i mod 10) :: char) :: nat) = of_char (char_of (48 + j mod 10) :: char)"
      by simp_all
    with i j have "i div 10 = j div 10" and "i mod 10 = j mod 10"
      by (simp_all add: of_char_of)
    then show "i = j"
      by (metis div_mult_mod_eq)
  qed
  then show ?thesis
    by (simp add: fifty_ids_def distinct_map)
qed

lemma fresh_ids_ok: "distinct (fresh_ids n) \<and> length (fresh_ids n) = 50"
  by (simp add: fresh_ids_def distinct_map distinct_fifty_ids length_fifty_ids)

lemma video_id_search_rows: "map video_id (search_rows ids n) = map Some (ids n)"
  by (simp add: search_rows_def sampler_record_def id_candidate comp_def)

lemma views_search_rows: "r \<in> set (search_rows ids n) \<Longrightarrow> views r = views_at_search n"
  by (auto simp: search_rows_def sampler_record_def entry_views_candidate)

lemma process_entry_transcripts:
  assumes "\<forall>r \<in> set (rows st). transcript r \<noteq> []"
  shows "\<forall>r \<in> set (rows (process_entry env e st)). transcript r \<noteq> []"
proof (cases "dict_get (id_key e)")
  case None
  with assms show ?thesis by (simp add: process_entry_def)
next
  case (Some vid)
  define st1 where "st1 = st\<lparr>transcript_calls := transcript_calls st + 1\<rparr>"
  show ?thesis
  proof (cases "vid = []")
    case True
    with Some assms show ?thesis by (simp add: process_entry_def)
  next
    case False
    show ?thesis
    proof (cases "fetch_transcript (get_transcript env (transcript_calls st)) (Some vid)")
      case (Inl ex)
      with Some False assms show ?thesis
        by (cases ex) (simp_all add: process_entry_def skip_video_def throttle_def)
    next
      case (Inr tr)
      then have tr: "tr \<noteq> []" by (rule fetch_transcript_nonempty)
      obtain r st2 where fm: "fetch_metadata env vid st1 = (r, st2)"
        by (cases "fetch_metadata env vid st1")
      with fetch_metadata_calls [of env vid st1] have "rows st2 = rows st"
        by (simp add: st1_def)
      with Some False Inr fm tr assms show ?thesis
        by (cases r) (simp_all add: process_entry_def throttle_def st1_def channel_row_def)
    qed
  qed
qed

lemma process_entries_transcripts:
  "\<forall>r \<in> set (rows st). transcript r \<noteq> [] \<Longrightarrow>
   \<forall>r \<in> set (rows (process_entries env es st)). transcript r \<noteq> []"
proof (induction es arbitrary: st)
  case Nil
  then show ?case by simp
next
  case (Cons e es)
  from Cons.prems have "\<forall>r \<in> set (rows (process_entry env e st)). transcript r \<noteq> []"
    by (rule process_entry_transcripts)
  then have "\<forall>r \<in> set (rows (process_entries env es (process_entry env e st))).
      transcript r \<noteq> []"
    by (rule Cons.IH)
  then show ?case by simp
qed

lemma channel_main_transcripts:
  "channel_main env url = Finished st \<Longrightarrow> \<forall>r \<in> set (rows st). transcript r \<noteq> []"
proof -
  assume run: "channel_main env url = Finished st"
  then obtain es where "st = process_entries env es channel_start"
    by (auto simp: channel_main_def split: if_splits sum.splits option.splits)
  moreover have "\<forall>r \<in> set (rows channel_start). transcript r \<noteq> []"
    by (simp add: channel_start_def)
  ultimately show ?thesis
    by (simp add: process_entries_transcripts)
qed

lemma subseq_distinct:
  assumes "subseq xs ys" and "distinct ys"
  shows "distinct xs"
  using assms
proof (induction rule: list_emb.induct)
  case (list_emb_Nil ys)
  show ?case by simp
next
  case (list_emb_Cons xs ys y)
  then show ?case by simp
next
  case (list_emb_Cons2 x y xs ys)
  from list_emb_Cons2.hyps(2) have "set xs \<subseteq> set ys"
    by (auto dest: list_emb_set)
  with list_emb_Cons2 show ?case by auto
qed

lemma listed_ids_Cons: "listed_ids (e # es) = listed_ids [e] @ listed_ids es"
  by (simp add: listed_ids_def map_filter_def split: option.splits)

lemma process_entry_ids:
  "\<exists>ys. map video_id (rows (process_entry env e st)) = map video_id (rows st) @ map Some ys
        \<and> subseq ys (listed_ids [e])"
proof (cases "dict_get (id_key e)")
  case None
  then have "rows (process_entry env e st) = rows st"
    by (simp add: process_entry_def)
  then show ?thesis
    by (intro exI [of _ "[]"]) simp
next
  case (Some vid)
  show ?thesis
  proof (cases "vid = []")
    case True
    with Some have "rows (process_entry env e st) = rows st"
      by (simp add: process_entry_def)
    then show ?thesis
      by (intro exI [of _ "[]"]) simp
  next
    case False
    with Some have l: "listed_ids [e] = [vid]"
      by (simp add: listed_ids_def map_filter_def)
    show ?thesis
    proof (cases "fetch_transcript (get_transcript env (transcript_calls st)) (Some vid)")
      case (Inl ex)
      with Some False have "rows (process_entry env e st) = rows st"
        by (simp add: process_entry_no_transcript skip_video_def throttle_def)
      then show ?thesis
        by (intro exI [of _ "[]"]) simp
    next
      case (Inr tr)
      from process_entry_rows [OF Some False Inr]
      consider "rows (process_entry env e st) = rows st"
        | info where "rows (process_entry env e st) = rows st @ [channel_row vid info tr]"
        by blast
      then show ?thesis
      proof cases
        case 1
        then show ?thesis
          by (intro exI [of _ "[]"]) simp
      next
        case 2
        then show ?thesis
          by (intro exI [of _ "[vid]"]) (simp add: l channel_row_def)
      qed
    qed
  qed
qed

lemma process_entries_ids:
  "\<exists>ys. map video_id (rows (process_entries env es st)) = map video_id (rows st) @ map Some ys
        \<and> subseq ys (listed_ids es)"
proof (induction es arbitrary: st)
  case Nil
  show ?case
    by (intro exI [of _ "[]"]) (simp add: listed_ids_def map_filter_def)
next
  case (Cons e es)
  from process_entry_ids [of env e st] obtain ys where
    ys: "map video_id (rows (process_entry env e st)) = map video_id (rows st) @ map Some ys"
      "subseq ys (listed_ids [e])"
    by blast
  from Cons.IH [of "process_entry env e st"] obtain zs where
    zs: "map video_id (rows (process_entries env es (process_entry env e st)))
        = map video_id (rows (process_entry env e st)) @ map Some zs"
      "subseq zs (listed_ids es)"
    by blast
  from ys(2) zs(2) have "subseq (ys @ zs) (listed_ids (e # es))"
    unfolding listed_ids_Cons [of e es] by (rule list_emb_append_mono)
  moreover from ys(1) zs(1)
  have "map video_id (rows (process_entries env (e # es) st))
      = map video_id (rows st) @ map Some (ys @ zs)"
    by simp
  ultimately show ?case by blast
qed

lemma channel_main_ids:
  assumes "channel_main env url = Finished st"
  shows "\<exists>entries ys. extract_playlist env 0 (normalize_to_videos_page url) = Inr (Val entries)
       \<and> map video_id (rows st) = map Some ys \<and> subseq ys (listed_ids entries)
       \<and> (distinct (listed_ids entries) \<longrightarrow> distinct (map video_id (rows st)))"
proof -
  from assms obtain entries where
    listing: "extract_playlist env 0 (normalize_to_videos_page url) = Inr (Val entries)"
    and st: "st = process_entries env entries channel_start"
    by (auto simp: channel_main_def dict_get_default_def
        split: if_splits sum.splits option.splits field.splits)
  from process_entries_ids [of env entries channel_start] obtain ys where
    ys: "map video_id (rows st) = map Some ys" "subseq ys (listed_ids entries)"
    by (auto simp: st channel_start_def)
  have "distinct (map video_id (rows st))" if "distinct (listed_ids entries)"
  proof -
    from ys(2) that have "distinct ys"
      by (rule subseq_distinct)
    then show ?thesis
      by (simp add: ys(1) distinct_map)
  qed
  with listing ys show ?thesis by blast
qed

text \<open>
  Claim C5 (as amended). Every row of an output file carries a non-empty transcript, in
  the channel harvest and in the stratified sampler. In the sampler's file, which holds
  the fifty records of each of the four tiers, no two rows share both their video id and
  their tier, so that video ids are unique in the file whenever rows with the same id
  have view counts of the same tier. In the channel harvest's file the ids of the rows
  are, in order, a sub-list of the ids the listing returned, so that video ids are
  unique in the file whenever the listing returns no id twice.
\<close>

theorem output_rows_unique_per_tier:
  "(sampler_main fuel env = Some (Inr all_videos) \<longrightarrow>
      length all_videos = 200
      \<and> (\<forall>r \<in> set all_videos. transcript r \<noteq> [])
      \<and> distinct (map (\<lambda>r. (video_id r, tier_of (views r))) all_videos)
      \<and> ((\<forall>r \<in> set all_videos. \<forall>r' \<in> set all_videos.
             video_id r = video_id r' \<longrightarrow> tier_of (views r) = tier_of (views r'))
          \<longrightarrow> distinct (map video_id all_videos)))
   \<and> (channel_main env channel_url = Finished cst \<longrightarrow>
        (\<forall>r \<in> set (rows cst). transcript r \<noteq> [])
        \<and> (\<exists>entries ys.
              extract_playlist env 0 (normalize_to_videos_page channel_url) = Inr (Val entries)
              \<and> map video_id (rows cst) = map Some ys \<and> subseq ys (listed_ids entries)
              \<and> (distinct (listed_ids entries) \<longrightarrow> distinct (map video_id (rows cst)))))"
proof (intro conjI impI)
  assume run: "sampler_main fuel env = Some (Inr all_videos)"
  from sampler_main_rows [OF run]
  show "length all_videos = 200" and "\<forall>r \<in> set all_videos. transcript r \<noteq> []"
    and d: "distinct (map (\<lambda>r. (video_id r, tier_of (views r))) all_videos)"
    by simp_all
  assume "\<forall>r \<in> set all_videos. \<forall>r' \<in> set all_videos.
             video_id r = video_id r' \<longrightarrow> tier_of (views r) = tier_of (views r')"
  with d show "distinct (map video_id all_videos)"
    by (rule distinct_ids_if_stable)
next
  assume run: "channel_main env channel_url = Finished cst"
  then show "\<forall>r \<in> set (rows cst). transcript r \<noteq> []"
    by (rule channel_main_transcripts)
  from run show "\<exists>entries ys.
      extract_playlist env 0 (normalize_to_videos_page channel_url) = Inr (Val entries)
      \<and> map video_id (rows cst) = map Some ys \<and> subseq ys (listed_ids entries)
      \<and> (distinct (listed_ids entries) \<longrightarrow> distinct (map video_id (rows cst)))"
    by (rule channel_main_ids)
qed

text \<open>
  The condition on the listing is needed: a listing that returns a video twice yields
  two rows for it.
\<close>

lemma channel_rows_repeat_listing:
  "\<exists>st. channel_main repeat_env CHANNEL_URL = Finished st
     \<and> map video_id (rows st) = [Some ''C'', Some ''C'']"
proof -
  have "channel_main repeat_env CHANNEL_URL = Finished
     \<lparr>playlist_calls = 1, video_calls = 2, transcript_calls = 2, choice_calls = 0,
      sleeps = [Throttle, Throttle],
      rows = [channel_row ''C'' example_info ''hello world'',
              channel_row ''C'' example_info ''hello world''],
      processed = 2, skipped_no_transcript = 0\<rparr>"
    by code_simp
  then show ?thesis
    by (simp add: channel_row_def)
qed

text \<open>
  The claim as stated fails in the sampler: a video that the searches of two tiers return
  with view counts of those two tiers is collected by both, and the file holds two rows
  with its id. Here the first row and the fifty-first are the same video, once with one
  million views and once with ten fewer.
\<close>

theorem output_rows_unique_counterexample:
  "length (rows_of (sampler_main 1 recount_env)) = 200
   \<and> video_id (rows_of (sampler_main 1 recount_env) ! 0) = Some ''vid00''
   \<and> views (rows_of (sampler_main 1 recount_env) ! 0) = 1000000
   \<and> video_id (rows_of (sampler_main 1 recount_env) ! 50) = Some ''vid00''
   \<and> views (rows_of (sampler_main 1 recount_env) ! 50) = 999990
   \<and> \<not> distinct (map video_id (rows_of (sampler_main 1 recount_env)))"
proof -
  have ids: "distinct (recount_ids n) \<and> length (recount_ids n) = 50" for n
    by (simp add: recount_ids_def fresh_ids_ok length_fifty_ids distinct_fifty_ids)
  have rows: "rows_of (sampler_main 1 recount_env)
      = search_rows recount_ids 0 @ search_rows recount_ids 1
        @ search_rows recount_ids 2 @ search_rows recount_ids 3"
    using search_world_main [of recount_ids]
    by (simp add: recount_env_def rows_of_def ids)
  have len: "length (search_rows recount_ids n) = 50" for n
    by (simp add: search_rows_def ids)
  have first: "fifty_ids ! 0 = ''vid00''"
    by code_simp
  have r0: "rows_of (sampler_main 1 recount_env) ! 0 = search_rows recount_ids 0 ! 0"
    unfolding rows by (simp add: nth_append len)
  have r50: "rows_of (sampler_main 1 recount_env) ! 50 = search_rows recount_ids 1 ! 0"
    unfolding rows by (simp add: nth_append len)
  have row: "search_rows recount_ids n ! 0
      = sampler_record (candidate ''vid00'' (Val (views_at_search n))) ''some words''"
    if "n \<le> 1" for n
    using that by (simp add: search_rows_def recount_ids_def length_fifty_ids first)
  have "map video_id (rows_of (sampler_main 1 recount_env))
      = map Some fifty_ids @ map Some fifty_ids
        @ map Some (fresh_ids 2) @ map Some (fresh_ids 3)"
    unfolding rows by (simp add: video_id_search_rows recount_ids_def)
  moreover have "fifty_ids \<noteq> []"
    using length_fifty_ids by auto
  ultimately have dup: "\<not> distinct (map video_id (rows_of (sampler_main 1 recount_env)))"
    by (cases fifty_ids) auto
  have "length (rows_of (sampler_main 1 recount_env)) = 200"
    unfolding rows by (simp add: len)
  moreover have "video_id (search_rows recount_ids n ! 0) = Some ''vid00''
      \<and> views (search_rows recount_ids n ! 0) = views_at_search n" if "n \<le> 1" for n
    using that by (simp add: row sampler_record_def id_candidate entry_views_candidate)
  ultimately show ?thesis
    using dup unfolding r0 r50 by (simp add: views_at_search_def)
qed

lemma fresh_rows_letter:
  assumes "r \<in> set (search_rows fresh_ids n)"
  shows "\<exists>v. video_id r = Some (char_of (97 + n) # v)"
proof -
  from assms have "video_id r \<in> set (map video_id (search_rows fresh_ids n))"
    by simp
  then show ?thesis
    by (auto simp: video_id_search_rows fresh_ids_def)
qed

theorem output_rows_unique_per_tier_witness:
  "sampler_main 1 fresh_env =
     Some (Inr (search_rows fresh_ids 0 @ search_rows fresh_ids 1
                @ search_rows fresh_ids 2 @ search_rows fresh_ids 3))
   \<and> length (rows_of (sampler_main 1 fresh_env)) = 200
   \<and> distinct (map video_id (rows_of (sampler_main 1 fresh_env)))
   \<and> (\<exists>cst. channel_main scenario_env CHANNEL_URL = Finished cst
         \<and> map transcript (rows cst) = [''hello world'']
         \<and> distinct (map video_id (rows cst))
         \<and> listed_ids (map entry_with_id [''A'', ''B'', ''C'']) = [''A'', ''B'', ''C''])"
proof -
  define all_videos where "all_videos = search_rows fresh_ids 0 @ search_rows fresh_ids 1
      @ search_rows fresh_ids 2 @ search_rows fresh_ids 3"
  note t = output_rows_unique_per_tier
  have run: "sampler_main 1 fresh_env = Some (Inr all_videos)"
    using search_world_main [of fresh_ids]
    by (simp add: fresh_env_def fresh_ids_ok all_videos_def)
  note facts = t [THEN conjunct1, rule_format, OF run]
  have where_from: "\<exists>n<4. r \<in> set (search_rows fresh_ids n)" if "r \<in> set all_videos" for r
  proof -
    from that consider "r \<in> set (search_rows fresh_ids 0)" | "r \<in> set (search_rows fresh_ids 1)"
      | "r \<in> set (search_rows fresh_ids 2)" | "r \<in> set (search_rows fresh_ids 3)"
      by (auto simp: all_videos_def)
    then show ?thesis
    proof cases
      case 1
      then show ?thesis by (intro exI [of _ 0]) simp
    next
      case 2
      then show ?thesis by (intro exI [of _ 1]) simp
    next
      case 3
      then show ?thesis by (intro exI [of _ 2]) simp
    next
      case 4
      then show ?thesis by (intro exI [of _ 3]) simp
    qed
  qed
  have stable: "\<forall>r \<in> set all_videos. \<forall>r' \<in> set all_videos.
      video_id r = video_id r' \<longrightarrow> tier_of (views r) = tier_of (views r')"
  proof (intro ballI impI)
    fix r r'
    assume r: "r \<in> set all_videos" and r': "r' \<in> set all_videos"
      and same: "video_id r = video_id r'"
    from where_from [OF r] obtain n where n: "n < 4" "r \<in> set (search_rows fresh_ids n)"
      by blast
    from where_from [OF r'] obtain m where m: "m < 4" "r' \<in> set (search_rows fresh_ids m)"
      by blast
    from fresh_rows_letter [OF n(2)] fresh_rows_letter [OF m(2)] same
    have "(char_of (97 + n) :: char) = char_of (97 + m)"
      by auto
    then have "(of_char (char_of (97 + n) :: char) :: nat) = of_char (char_of (97 + m) :: char)"
      by simp
    with n(1) m(1) have "n = m"
      by (simp add: of_char_of)
    with views_search_rows [OF n(2)] views_search_rows [OF m(2)]
    show "tier_of (views r) = tier_of (views r')"
      by simp
  qed
  from facts have "length all_videos = 200" by simp
  moreover from facts stable have "distinct (map video_id all_videos)" by blast
  moreover have ch: "channel_main scenario_env CHANNEL_URL = Finished
       (channel_start
         \<lparr>transcript_calls := 3, video_calls := 1, sleeps := [Throttle, Throttle, Throttle],
          rows := [channel_row ''C'' example_info ''hello world''], processed := 1,
          skipped_no_transcript := 2\<rparr>)"
    by (rule channel_scenario [where ea = "entry_with_id ''A''" and eb = "entry_with_id ''B''"
          and ec = "entry_with_id ''C''" and a = "''A''" and b = "''B''"])
      (simp_all add: scenario_env_def CHANNEL_URL_def entry_with_id_def dict_get_def)
  from t [THEN conjunct2, rule_format, OF ch] obtain entries where
    listing: "extract_playlist scenario_env 0 (normalize_to_videos_page CHANNEL_URL)
        = Inr (Val entries)"
    and unique: "distinct (listed_ids entries) \<longrightarrow> distinct (map video_id (rows (channel_start
         \<lparr>transcript_calls := 3, video_calls := 1, sleeps := [Throttle, Throttle, Throttle],
          rows := [channel_row ''C'' example_info ''hello world''], processed := 1,
          skipped_no_transcript := 2\<rparr>)))"
    by blast
  from listing have "entries = map entry_with_id [''A'', ''B'', ''C'']"
    by (simp add: scenario_env_def)
  then have "listed_ids entries = [''A'', ''B'', ''C'']"
    by (simp add: listed_ids_def map_filter_def entry_with_id_def dict_get_def)
  with unique have "distinct (map video_id (rows (channel_start
         \<lparr>transcript_calls := 3, video_calls := 1, sleeps := [Throttle, Throttle, Throttle],
          rows := [channel_row ''C'' example_info ''hello world''], processed := 1,
          skipped_no_transcript := 2\<rparr>)))"
    by simp
  with ch have "\<exists>cst. channel_main scenario_env CHANNEL_URL = Finished cst
         \<and> map transcript (rows cst) = [''hello world'']
         \<and> distinct (map video_id (rows cst))
         \<and> listed_ids (map entry_with_id [''A'', ''B'', ''C'']) = [''A'', ''B'', ''C'']"
    by (simp add: channel_row_def listed_ids_def map_filter_def entry_with_id_def dict_get_def)
  ultimately show ?thesis
    using run by (simp add: rows_of_def all_videos_def)
qed

end
